theory Spec2Isabelle
  imports Complex_Main "HOL-Library.AList"
begin

section \<open>JavaScript values\<close>

text \<open>
  The functions of \<^verbatim>\<open>src/services/parser.js\<close> (the classifier, the cleaner, the normalizer)
  and of \<^verbatim>\<open>utils/validation.js\<close> (the schema validator; its text is the second part of
  \<^verbatim>\<open>src/config/components/DataVisualization.js\<close>, from line 274) take whatever value the
  request body holds. The values modelled are those \<^verbatim>\<open>JSON.parse\<close> produces, and
  \<^verbatim>\<open>undefined\<close>. An object is the list of its own enumerable properties in the order in
  which the engine enumerates them (\<^verbatim>\<open>Object.entries\<close>); prototypes are not modelled, and
  none of the property names read by the code (\<^verbatim>\<open>type\<close>, \<^verbatim>\<open>invoices\<close>, \<^verbatim>\<open>date\<close>, ...) is a
  property of \<^verbatim>\<open>Object.prototype\<close>. A number is the rational it denotes: the rounding of
  IEEE doubles, \<^verbatim>\<open>NaN\<close> and the infinities are outside the model. A \<^typ>\<open>char\<close> stands for
  one UTF-16 code unit below 256.
\<close>

datatype jsval =
    JUndefined
  | JNull
  | JBool bool
  | JNum rat
  | JStr string
  | JArr "jsval list"
  | JObj "(string \<times> jsval) list"

text \<open>
  What a run of a function does: it returns a value, it throws, or it leaves the modelled
  fragment of the language (\<open>Unmodelled\<close>: an arithmetic operator or a comparison applied to
  an operand that is not a number, where JavaScript coerces).
\<close>

datatype js_error =
    TypeError
  | Error string
  | NormalizationFailed js_error

datatype 'a outcome = Returns 'a | Throws js_error | Unmodelled

fun bind :: "'a outcome \<Rightarrow> ('a \<Rightarrow> 'b outcome) \<Rightarrow> 'b outcome" where
  "bind (Returns x) f = f x"
| "bind (Throws e) f = Throws e"
| "bind Unmodelled f = Unmodelled"

text \<open>
  \<^verbatim>\<open>error.message\<close>. The text of a \<^verbatim>\<open>TypeError\<close> is worded by the engine and is the
  parameter \<open>engine_text\<close>; \<open>NormalizationFailed e\<close> is the error built by
  \<^verbatim>\<open>new Error(`Data normalization failed: ${error.message}`)\<close> from the caught \<open>e\<close>.
\<close>

fun error_message :: "string \<Rightarrow> js_error \<Rightarrow> string" where
  "error_message engine_text TypeError = engine_text"
| "error_message engine_text (Error m) = m"
| "error_message engine_text (NormalizationFailed e) =
     ''Data normalization failed: '' @ error_message engine_text e"

text \<open>Truthiness, and \<^verbatim>\<open>a || b\<close>.\<close>

fun truthy :: "jsval \<Rightarrow> bool" where
  "truthy JUndefined = False"
| "truthy JNull = False"
| "truthy (JBool b) = b"
| "truthy (JNum n) = (n \<noteq> 0)"
| "truthy (JStr s) = (s \<noteq> [])"
| "truthy (JArr xs) = True"
| "truthy (JObj ps) = True"

definition js_or :: "jsval \<Rightarrow> jsval \<Rightarrow> jsval" where
  "js_or a b = (if truthy a then a else b)"

text \<open>Decimal rendering of an array index or a count (\<^verbatim>\<open>String(n)\<close> for a natural number).\<close>

fun show_nat :: "nat \<Rightarrow> string" where
  "show_nat n =
     (if n < 10 then [char_of (48 + n)]
      else show_nat (n div 10) @ [char_of (48 + n mod 10)])"

declare show_nat.simps [simp del]

text \<open>
  \<^verbatim>\<open>Object.entries(v)\<close>: the own enumerable properties. An array and a string have their
  indices as keys, a number and a boolean have none, \<^verbatim>\<open>null\<close> and \<^verbatim>\<open>undefined\<close> throw.
\<close>

fun entries :: "jsval \<Rightarrow> (string \<times> jsval) list outcome" where
  "entries JUndefined = Throws TypeError"
| "entries JNull = Throws TypeError"
| "entries (JBool b) = Returns []"
| "entries (JNum n) = Returns []"
| "entries (JStr s) = Returns (zip (map show_nat [0..<length s]) (map (\<lambda>c. JStr [c]) s))"
| "entries (JArr xs) = Returns (zip (map show_nat [0..<length xs]) xs)"
| "entries (JObj ps) = Returns ps"

text \<open>
  A property read \<^verbatim>\<open>v.k\<close> (\<^verbatim>\<open>v[k]\<close>): \<^verbatim>\<open>length\<close> of an array or a string, an own
  property otherwise, \<^verbatim>\<open>undefined\<close> when there is none; a read from \<^verbatim>\<open>null\<close> or
  \<^verbatim>\<open>undefined\<close> throws. \<open>get_opt\<close> is the optional chain \<^verbatim>\<open>v?.k\<close>.
\<close>

definition own_property :: "(string \<times> jsval) list \<Rightarrow> string \<Rightarrow> jsval" where
  "own_property ps k = (case map_of ps k of None \<Rightarrow> JUndefined | Some v \<Rightarrow> v)"

fun get :: "jsval \<Rightarrow> string \<Rightarrow> jsval outcome" where
  "get JUndefined k = Throws TypeError"
| "get JNull k = Throws TypeError"
| "get (JBool b) k = Returns JUndefined"
| "get (JNum n) k = Returns JUndefined"
| "get (JStr s) k =
     Returns (if k = ''length'' then JNum (of_nat (length s))
              else own_property (zip (map show_nat [0..<length s]) (map (\<lambda>c. JStr [c]) s)) k)"
| "get (JArr xs) k =
     Returns (if k = ''length'' then JNum (of_nat (length xs))
              else own_property (zip (map show_nat [0..<length xs]) xs) k)"
| "get (JObj ps) k = Returns (own_property ps k)"

definition get_opt :: "jsval \<Rightarrow> string \<Rightarrow> jsval" where
  "get_opt v k = (case get v k of Returns x \<Rightarrow> x | _ \<Rightarrow> JUndefined)"

text \<open>
  An assignment \<^verbatim>\<open>obj[key] = value\<close> to an ordinary object: an existing own property keeps
  its place, a new one is added last (the code below assigns keys in the order in which it
  enumerated them, so that integer-like keys, which an engine enumerates first, stay first).
  The key \<^verbatim>\<open>__proto__\<close> is the inherited accessor of \<^verbatim>\<open>Object.prototype\<close>: an assignment to
  it creates no own property.
\<close>

definition set_property :: "(string \<times> jsval) list \<Rightarrow> string \<Rightarrow> jsval \<Rightarrow> (string \<times> jsval) list" where
  "set_property ps key v = (if key = ''__proto__'' then ps else AList.update key v ps)"

section \<open>Strings\<close>

text \<open>
  \<^verbatim>\<open>String.prototype.trim\<close> removes white space and line terminators from both ends; below
  256 these are the code units 9 to 13, 32 and 160.
\<close>

definition is_space :: "char \<Rightarrow> bool" where
  "is_space c = ((of_char c :: nat) \<in> {9, 10, 11, 12, 13, 32, 160})"

definition trim :: "string \<Rightarrow> string" where
  "trim s = rev (dropWhile is_space (rev (dropWhile is_space s)))"

text \<open>\<^verbatim>\<open>String.prototype.toLowerCase\<close> on code units below 256.\<close>

definition toLowerCase_char :: "char \<Rightarrow> char" where
  "toLowerCase_char c =
     (let n = (of_char c :: nat)
      in if (65 \<le> n \<and> n \<le> 90) \<or> (192 \<le> n \<and> n \<le> 222 \<and> n \<noteq> 215)
         then char_of (n + 32) else c)"

definition toLowerCase :: "string \<Rightarrow> string" where
  "toLowerCase s = map toLowerCase_char s"

text \<open>\<^verbatim>\<open>k.includes(w)\<close>: \<open>w\<close> occurs in \<open>k\<close> as a contiguous substring.\<close>

fun str_includes :: "string \<Rightarrow> string \<Rightarrow> bool" where
  "str_includes [] w = (w = [])"
| "str_includes (c # cs) w = (take (length w) (c # cs) = w \<or> str_includes cs w)"

section \<open>The record cleaner (\<^verbatim>\<open>cleanRecord\<close>, \<^verbatim>\<open>cleanFinancialData\<close>)\<close>

text \<open>
  The test \<^verbatim>\<open>/^-?\d+\.?\d*$/.test(value)\<close>, read from left to right: an optional minus, the
  longest run of digits, which must not be empty, an optional point, and digits up to the
  end of the string.
\<close>

definition is_digit :: "char \<Rightarrow> bool" where
  "is_digit c = (c \<in> set ''0123456789'')"

fun optional :: "char \<Rightarrow> string \<Rightarrow> string" where
  "optional c [] = []"
| "optional c (x # xs) = (if x = c then xs else x # xs)"

definition numeric_test :: "string \<Rightarrow> bool" where
  "numeric_test s =
     (let s1 = optional (CHR ''-'') s;
          s2 = optional (CHR ''.'') (dropWhile is_digit s1)
      in takeWhile is_digit s1 \<noteq> [] \<and> list_all is_digit s2)"

text \<open>
  The numeric pattern as the specification words it, for comparison with the test: an
  optional leading minus, digits, and optionally a decimal point with trailing digits.
\<close>

definition claimed_numeric_pattern :: "string \<Rightarrow> bool" where
  "claimed_numeric_pattern t =
     (\<exists>sign ip frac. t = sign @ ip @ frac \<and> (sign = [] \<or> sign = ''-'') \<and>
        ip \<noteq> [] \<and> list_all is_digit ip \<and>
        (frac = [] \<or> (\<exists>fp. frac = ''.'' @ fp \<and> fp \<noteq> [] \<and> list_all is_digit fp)))"

text \<open>
  \<^verbatim>\<open>parseFloat\<close> on a string that passed the test: the whole string is a decimal literal,
  and its value is the signed sum of the integer part and the fraction.
\<close>

definition digit_value :: "char \<Rightarrow> nat" where
  "digit_value c = of_char c - 48"

definition decimal :: "string \<Rightarrow> nat" where
  "decimal ds = foldl (\<lambda>a c. 10 * a + digit_value c) 0 ds"

definition parseFloat :: "string \<Rightarrow> rat" where
  "parseFloat s =
     (let s1 = optional (CHR ''-'') s;
          ip = takeWhile is_digit s1;
          fp = optional (CHR ''.'') (dropWhile is_digit s1);
          magnitude = of_nat (decimal ip) + of_nat (decimal fp) / 10 ^ length fp
      in if take 1 s = ''-'' then - magnitude else magnitude)"

text \<open>
  The body of the callback of \<^verbatim>\<open>cleanRecord\<close> for one value: \<open>None\<close> is the early
  \<^verbatim>\<open>return\<close> that leaves the field out, \<open>Some v\<close> the value assigned to \<^verbatim>\<open>cleaned[key]\<close>.
\<close>

fun clean_value :: "jsval \<Rightarrow> jsval option" where
  "clean_value JUndefined = None"
| "clean_value JNull = None"
| "clean_value (JStr s) =
     (let t = trim s
      in if t = [] then None
         else if numeric_test t then Some (JNum (parseFloat t))
         else Some (JStr t))"
| "clean_value v = Some v"

definition clean_field :: "(string \<times> jsval) list \<Rightarrow> string \<times> jsval \<Rightarrow> (string \<times> jsval) list" where
  "clean_field cleaned kv =
     (case clean_value (snd kv) of
        None \<Rightarrow> cleaned
      | Some v \<Rightarrow> set_property cleaned (fst kv) v)"

definition cleanRecord :: "jsval \<Rightarrow> jsval outcome" where
  "cleanRecord record =
     bind (entries record) (\<lambda>es. Returns (JObj (foldl clean_field [] es)))"

text \<open>
  What \<^verbatim>\<open>cleanRecord\<close> builds: distinct keys, none of them \<^verbatim>\<open>__proto__\<close>, and values that
  the cleaner leaves as they are.
\<close>

definition settled :: "(string \<times> jsval) list \<Rightarrow> bool" where
  "settled ps = (distinct (map fst ps) \<and>
     list_all (\<lambda>kv. clean_value (snd kv) = Some (snd kv) \<and> fst kv \<noteq> ''__proto__'') ps)"

text \<open>
  \<^verbatim>\<open>cleanFinancialData\<close>. The copy \<^verbatim>\<open>{ ...data }\<close> holds the own properties of \<open>data\<close> (none
  for \<^verbatim>\<open>null\<close> and \<^verbatim>\<open>undefined\<close>). A category that is truthy must have a method
  \<^verbatim>\<open>filter\<close>, that is, be an array: any other truthy value throws. The filter
  \<^verbatim>\<open>record && typeof record === 'object'\<close> keeps the objects and the arrays.
\<close>

fun is_object_like :: "jsval \<Rightarrow> bool" where
  "is_object_like (JObj ps) = True"
| "is_object_like (JArr xs) = True"
| "is_object_like v = False"

fun clean_all :: "jsval list \<Rightarrow> jsval list outcome" where
  "clean_all [] = Returns []"
| "clean_all (r # rs) =
     bind (cleanRecord r) (\<lambda>c. bind (clean_all rs) (\<lambda>cs. Returns (c # cs)))"

definition clean_category :: "(string \<times> jsval) list \<Rightarrow> string \<Rightarrow> (string \<times> jsval) list outcome" where
  "clean_category cleaned category =
     (let v = own_property cleaned category
      in if truthy v
         then (case v of
                 JArr rs \<Rightarrow>
                   bind (clean_all (filter is_object_like rs))
                     (\<lambda>cs. Returns (set_property cleaned category (JArr cs)))
               | _ \<Rightarrow> Throws TypeError)
         else Returns cleaned)"

definition spread_object :: "jsval \<Rightarrow> (string \<times> jsval) list" where
  "spread_object data = (case entries data of Returns ps \<Rightarrow> ps | _ \<Rightarrow> [])"

definition cleanFinancialData :: "jsval \<Rightarrow> jsval outcome" where
  "cleanFinancialData data =
     bind (clean_category (spread_object data) ''invoices'') (\<lambda>c1.
     bind (clean_category c1 ''expenses'') (\<lambda>c2.
     bind (clean_category c2 ''payments'') (\<lambda>c3.
     bind (clean_category c3 ''balances'') (\<lambda>c4.
     Returns (JObj c4)))))"

section \<open>The record classifier (\<^verbatim>\<open>detectRecordType\<close>, \<^verbatim>\<open>categorizeFlatData\<close>)\<close>

text \<open>The chain of comparisons on the lower-cased \<^verbatim>\<open>type\<close>; \<open>None\<close> when none matches.\<close>

definition explicit_type :: "string \<Rightarrow> string option" where
  "explicit_type t =
     (if t = ''invoice'' \<or> t = ''bill'' then Some ''invoices''
      else if t = ''payment'' \<or> t = ''transaction'' then Some ''payments''
      else if t = ''expense'' then Some ''expenses''
      else if t = ''balance'' then Some ''balances''
      else None)"

text \<open>The fallback on the lower-cased field names.\<close>

definition by_field_names :: "string list \<Rightarrow> string" where
  "by_field_names keys =
     (if list_ex (\<lambda>k. str_includes k ''invoice'' \<or> str_includes k ''bill'' \<or> str_includes k ''revenue'') keys
      then ''invoices''
      else if list_ex (\<lambda>k. str_includes k ''payment'' \<or> str_includes k ''transaction'') keys
      then ''payments''
      else if list_ex (\<lambda>k. str_includes k ''balance'' \<or> str_includes k ''account'') keys
      then ''balances''
      else ''expenses'')"

text \<open>
  \<^verbatim>\<open>record.type.toLowerCase()\<close> is a method of strings only: on any other truthy value
  (a number, \<^verbatim>\<open>true\<close>, an array, an object) the call throws a \<^verbatim>\<open>TypeError\<close>.
\<close>

definition detectRecordType :: "jsval \<Rightarrow> string outcome" where
  "detectRecordType record =
     bind (get record ''type'') (\<lambda>t.
     bind (if truthy t
           then (case t of
                   JStr s \<Rightarrow> Returns (explicit_type (toLowerCase s))
                 | _ \<Rightarrow> Throws TypeError)
           else Returns None) (\<lambda>explicit.
     case explicit of
       Some category \<Rightarrow> Returns category
     | None \<Rightarrow>
         bind (entries record) (\<lambda>ps.
         Returns (by_field_names (map (\<lambda>kv. toLowerCase (fst kv)) ps)))))"

text \<open>\<^verbatim>\<open>categorized[type].push(record)\<close> on the object of the four arrays.\<close>

definition push :: "(string \<times> jsval) list \<Rightarrow> string \<Rightarrow> jsval \<Rightarrow> (string \<times> jsval) list" where
  "push categorized k r =
     map (\<lambda>kv. if fst kv = k
               then (case snd kv of JArr xs \<Rightarrow> (fst kv, JArr (xs @ [r])) | _ \<Rightarrow> kv)
               else kv) categorized"

definition categorize_record :: "(string \<times> jsval) list \<Rightarrow> jsval \<Rightarrow> (string \<times> jsval) list outcome" where
  "categorize_record categorized record =
     bind (detectRecordType record) (\<lambda>t.
     Returns (if truthy (own_property categorized t)
              then push categorized t record
              else push categorized ''expenses'' record))"

fun categorize_each :: "jsval list \<Rightarrow> (string \<times> jsval) list \<Rightarrow> (string \<times> jsval) list outcome" where
  "categorize_each [] categorized = Returns categorized"
| "categorize_each (r # rs) categorized =
     bind (categorize_record categorized r) (categorize_each rs)"

definition categorizeFlatData :: "jsval list \<Rightarrow> jsval outcome" where
  "categorizeFlatData flatData =
     bind (categorize_each flatData
             [(''invoices'', JArr []), (''expenses'', JArr []),
              (''payments'', JArr []), (''balances'', JArr [])])
       (\<lambda>categorized. Returns (JObj categorized))"

text \<open>
  The classification algorithm in the words of the specification, for comparison with
  \<^verbatim>\<open>detectRecordType\<close>: an explicit \<^verbatim>\<open>type\<close> tag is lower-cased and mapped, any other
  explicit value falls through; then the first rule of the ordered list whose keyword set
  matches a field name (case-insensitive substring) wins; the default is expense.
\<close>

datatype category = Invoice | Expense | Payment | Balance

fun bucket :: "category \<Rightarrow> string" where
  "bucket Invoice = ''invoices''"
| "bucket Expense = ''expenses''"
| "bucket Payment = ''payments''"
| "bucket Balance = ''balances''"

definition tag_category :: "string \<Rightarrow> category option" where
  "tag_category t =
     map_of [(''invoice'', Invoice), (''bill'', Invoice), (''payment'', Payment),
             (''transaction'', Payment), (''expense'', Expense), (''balance'', Balance)] t"

definition name_rules :: "(category \<times> string list) list" where
  "name_rules =
     [(Invoice, [''invoice'', ''bill'', ''revenue'']),
      (Payment, [''payment'', ''transaction'']),
      (Balance, [''balance'', ''account''])]"

definition rule_matches :: "string list \<Rightarrow> category \<times> string list \<Rightarrow> bool" where
  "rule_matches names rule =
     list_ex (\<lambda>name. list_ex (\<lambda>w. str_includes (toLowerCase name) w) (snd rule)) names"

definition classify_spec :: "(string \<times> jsval) list \<Rightarrow> category" where
  "classify_spec record =
     (case (case map_of record ''type'' of
              Some (JStr t) \<Rightarrow> tag_category (toLowerCase t)
            | _ \<Rightarrow> None) of
        Some c \<Rightarrow> c
      | None \<Rightarrow>
          (case find (rule_matches (map fst record)) name_rules of
             Some rule \<Rightarrow> fst rule
           | None \<Rightarrow> Expense))"

section \<open>The normalizer (\<^verbatim>\<open>normalizeFinancialData\<close>, \<^verbatim>\<open>getTotalRecordCount\<close>)\<close>

text \<open>
  \<^verbatim>\<open>a + b\<close> on two numbers. On other operands JavaScript converts (to a string or to a
  number, or throws when an object has no primitive value): this is not modelled.
\<close>

fun js_add :: "jsval \<Rightarrow> jsval \<Rightarrow> jsval outcome" where
  "js_add (JNum a) (JNum b) = Returns (JNum (a + b))"
| "js_add a b = Unmodelled"

text \<open>\<^verbatim>\<open>data.k?.length || 0\<close>\<close>

definition length_or_0 :: "jsval \<Rightarrow> string \<Rightarrow> jsval outcome" where
  "length_or_0 data k = bind (get data k) (\<lambda>v. Returns (js_or (get_opt v ''length'') (JNum 0)))"

text \<open>The value of \<^verbatim>\<open>data.k?.length || 0\<close> when \<open>data\<close> is neither \<^verbatim>\<open>null\<close> nor \<^verbatim>\<open>undefined\<close>.\<close>

definition count_of :: "jsval \<Rightarrow> string \<Rightarrow> jsval" where
  "count_of data k = js_or (get_opt (get_opt data k) ''length'') (JNum 0)"

definition getTotalRecordCount :: "jsval \<Rightarrow> jsval outcome" where
  "getTotalRecordCount data =
     bind (length_or_0 data ''invoices'') (\<lambda>a.
     bind (length_or_0 data ''expenses'') (\<lambda>b.
     bind (js_add a b) (\<lambda>ab.
     bind (length_or_0 data ''payments'') (\<lambda>c.
     bind (js_add ab c) (\<lambda>abc.
     bind (length_or_0 data ''balances'') (\<lambda>d.
     js_add abc d))))))"

text \<open>
  The \<^verbatim>\<open>try\<close> block of \<^verbatim>\<open>normalizeFinancialData\<close>, in its three steps: the text is
  parsed, a flat array is categorized, the structure is assembled. \<^verbatim>\<open>JSON.parse\<close> is the
  parameter \<open>JSON_parse\<close> (\<open>None\<close> when it throws), and \<open>now\<close> is
  \<^verbatim>\<open>new Date().toISOString()\<close>. The calls of the logger are left out.
\<close>

definition parse_input :: "(string \<Rightarrow> jsval option) \<Rightarrow> jsval \<Rightarrow> jsval outcome" where
  "parse_input JSON_parse input =
     (case input of
        JStr s \<Rightarrow>
          (case JSON_parse s of
             None \<Rightarrow> Throws (Error ''Invalid JSON format'')
           | Some d \<Rightarrow> Returns d)
      | _ \<Rightarrow> Returns input)"

definition categorize_if_array :: "jsval \<Rightarrow> jsval outcome" where
  "categorize_if_array parsed =
     (case parsed of
        JArr flatData \<Rightarrow> categorizeFlatData flatData
      | _ \<Rightarrow> Returns parsed)"

definition assemble :: "string \<Rightarrow> jsval \<Rightarrow> jsval outcome" where
  "assemble now data =
     bind (get data ''invoices'') (\<lambda>invoices.
     bind (get data ''expenses'') (\<lambda>expenses.
     bind (get data ''payments'') (\<lambda>payments.
     bind (get data ''balances'') (\<lambda>balances.
     bind (get data ''source'') (\<lambda>source.
     bind (getTotalRecordCount data) (\<lambda>recordCount.
     Returns (JObj
       [(''invoices'', js_or invoices (JArr [])),
        (''expenses'', js_or expenses (JArr [])),
        (''payments'', js_or payments (JArr [])),
        (''balances'', js_or balances (JArr [])),
        (''metadata'', JObj
           [(''source'', js_or source (JStr ''manual_input'')),
            (''timestamp'', JStr now),
            (''recordCount'', recordCount)])])))))))"

definition normalize_try :: "(string \<Rightarrow> jsval option) \<Rightarrow> string \<Rightarrow> jsval \<Rightarrow> jsval outcome" where
  "normalize_try JSON_parse now input =
     bind (parse_input JSON_parse input) (\<lambda>parsed.
     bind (categorize_if_array parsed) (\<lambda>data.
     assemble now data))"

text \<open>The \<^verbatim>\<open>catch\<close> block wraps whatever was thrown, the parse error included.\<close>

definition normalizeFinancialData :: "(string \<Rightarrow> jsval option) \<Rightarrow> string \<Rightarrow> jsval \<Rightarrow> jsval outcome" where
  "normalizeFinancialData JSON_parse now input =
     (case normalize_try JSON_parse now input of
        Throws e \<Rightarrow> Throws (NormalizationFailed e)
      | r \<Rightarrow> r)"

section \<open>The schema validator (\<^verbatim>\<open>validateData\<close>, \<^verbatim>\<open>checkDataQuality\<close>)\<close>

text \<open>
  \<^verbatim>\<open>validateFinancialData\<close> is the schema below compiled by Ajv, created with
  \<^verbatim>\<open>allErrors: true\<close> and no other option. The schema is transcribed from the source;
  what its keywords mean is JSON Schema as Ajv implements it, for the keywords the schema
  uses: each keyword constrains the values of its own type only and reports one error where it
  is violated, all errors are collected, \<^verbatim>\<open>additionalProperties: true\<close> and \<^verbatim>\<open>default\<close>
  constrain nothing. The order in which Ajv lists the errors of one value is not modelled:
  here they follow the schema text. The format predicates of \<^verbatim>\<open>ajv-formats\<close> are the
  parameter \<open>fmt\<close>.
\<close>

datatype jtype = T_object | T_array | T_string | T_number

datatype kw =
    Type "jtype list"
  | Properties "(string \<times> schema) list"
  | Required "string list"
  | Items schema
  | Minimum int
  | Format string
  | Enum "jsval list"
  | AdditionalProperties_true
  | Default jsval
and schema = Schema "kw list"

fun has_type :: "jtype \<Rightarrow> jsval \<Rightarrow> bool" where
  "has_type T_object v = (case v of JObj ps \<Rightarrow> True | _ \<Rightarrow> False)"
| "has_type T_array v = (case v of JArr xs \<Rightarrow> True | _ \<Rightarrow> False)"
| "has_type T_string v = (case v of JStr s \<Rightarrow> True | _ \<Rightarrow> False)"
| "has_type T_number v = (case v of JNum n \<Rightarrow> True | _ \<Rightarrow> False)"

fun type_name :: "jtype \<Rightarrow> string" where
  "type_name T_object = ''object''"
| "type_name T_array = ''array''"
| "type_name T_string = ''string''"
| "type_name T_number = ''number''"

fun join_comma :: "string list \<Rightarrow> string" where
  "join_comma [] = []"
| "join_comma [x] = x"
| "join_comma (x # y # ys) = x @ '','' @ join_comma (y # ys)"

fun show_int :: "int \<Rightarrow> string" where
  "show_int i = (if i < 0 then ''-'' @ show_nat (nat (- i)) else show_nat (nat i))"

text \<open>
  The error objects of Ajv: the \<^verbatim>\<open>params\<close> have one shape per keyword, and \<open>error_data\<close>
  is the property \<^verbatim>\<open>data\<close>. Ajv sets \<^verbatim>\<open>data\<close> only under the option \<^verbatim>\<open>verbose\<close>, which
  \<^verbatim>\<open>new Ajv({ allErrors: true })\<close> does not set: on the errors of this validator the property
  is absent, and a read of it gives \<^verbatim>\<open>undefined\<close>.
\<close>

datatype params =
    P_type "jtype list"
  | P_missingProperty string
  | P_limit string int
  | P_format string
  | P_allowedValues "jsval list"

record ajv_error =
  instancePath :: string
  schemaPath :: string
  keyword :: string
  params :: params
  message :: string
  error_data :: jsval

definition quoted :: "char \<Rightarrow> string \<Rightarrow> string" where
  "quoted q s = [q] @ s @ [q]"

function (sequential) validate :: "(string \<Rightarrow> string \<Rightarrow> bool) \<Rightarrow> schema \<Rightarrow> string \<Rightarrow> string \<Rightarrow> jsval \<Rightarrow> ajv_error list"
  and validate_kws :: "(string \<Rightarrow> string \<Rightarrow> bool) \<Rightarrow> kw list \<Rightarrow> string \<Rightarrow> string \<Rightarrow> jsval \<Rightarrow> ajv_error list"
  and validate_kw :: "(string \<Rightarrow> string \<Rightarrow> bool) \<Rightarrow> kw \<Rightarrow> string \<Rightarrow> string \<Rightarrow> jsval \<Rightarrow> ajv_error list"
  and validate_props :: "(string \<Rightarrow> string \<Rightarrow> bool) \<Rightarrow> (string \<times> schema) list \<Rightarrow> string \<Rightarrow> string \<Rightarrow> (string \<times> jsval) list \<Rightarrow> ajv_error list"
  and validate_items :: "(string \<Rightarrow> string \<Rightarrow> bool) \<Rightarrow> schema \<Rightarrow> string \<Rightarrow> string \<Rightarrow> nat \<Rightarrow> jsval list \<Rightarrow> ajv_error list"
where
  "validate fmt (Schema kws) ip sp v = validate_kws fmt kws ip sp v"
| "validate_kws fmt [] ip sp v = []"
| "validate_kws fmt (k # ks) ip sp v = validate_kw fmt k ip sp v @ validate_kws fmt ks ip sp v"
| "validate_kw fmt (Type ts) ip sp v =
     (if list_ex (\<lambda>t. has_type t v) ts then []
      else [\<lparr>instancePath = ip, schemaPath = sp @ ''/type'', keyword = ''type'',
             params = P_type ts,
             message = ''must be '' @ join_comma (map type_name ts),
             error_data = JUndefined\<rparr>])"
| "validate_kw fmt (Properties ps) ip sp v =
     (case v of
        JObj obj \<Rightarrow> validate_props fmt ps ip (sp @ ''/properties'') obj
      | _ \<Rightarrow> [])"
| "validate_kw fmt (Required rs) ip sp v =
     (case v of
        JObj obj \<Rightarrow>
          concat (map (\<lambda>r. if own_property obj r = JUndefined
                            then [\<lparr>instancePath = ip, schemaPath = sp @ ''/required'',
                                   keyword = ''required'', params = P_missingProperty r,
                                   message = ''must have required property '' @ quoted (CHR 0x27) r,
                                   error_data = JUndefined\<rparr>]
                            else []) rs)
      | _ \<Rightarrow> [])"
| "validate_kw fmt (Items s) ip sp v =
     (case v of
        JArr xs \<Rightarrow> validate_items fmt s ip (sp @ ''/items'') 0 xs
      | _ \<Rightarrow> [])"
| "validate_kw fmt (Minimum m) ip sp v =
     (case v of
        JNum n \<Rightarrow>
          (if n < of_int m
           then [\<lparr>instancePath = ip, schemaPath = sp @ ''/minimum'', keyword = ''minimum'',
                  params = P_limit ''>='' m, message = ''must be >= '' @ show_int m,
                  error_data = JUndefined\<rparr>]
           else [])
      | _ \<Rightarrow> [])"
| "validate_kw fmt (Format f) ip sp v =
     (case v of
        JStr s \<Rightarrow>
          (if fmt f s then []
           else [\<lparr>instancePath = ip, schemaPath = sp @ ''/format'', keyword = ''format'',
                  params = P_format f, message = ''must match format '' @ quoted (CHR 0x22) f,
                  error_data = JUndefined\<rparr>])
      | _ \<Rightarrow> [])"
| "validate_kw fmt (Enum vs) ip sp v =
     (if v \<in> set vs then []
      else [\<lparr>instancePath = ip, schemaPath = sp @ ''/enum'', keyword = ''enum'',
             params = P_allowedValues vs,
             message = ''must be equal to one of the allowed values'',
             error_data = JUndefined\<rparr>])"
| "validate_kw fmt AdditionalProperties_true ip sp v = []"
| "validate_kw fmt (Default d) ip sp v = []"
| "validate_props fmt [] ip sp obj = []"
| "validate_props fmt (p # ps) ip sp obj =
     (if own_property obj (fst p) = JUndefined then []
      else validate fmt (snd p) (ip @ ''/'' @ fst p) (sp @ ''/'' @ fst p)
             (own_property obj (fst p)))
     @ validate_props fmt ps ip sp obj"
| "validate_items fmt s ip sp i [] = []"
| "validate_items fmt s ip sp i (x # xs) =
     validate fmt s (ip @ ''/'' @ show_nat i) sp x @ validate_items fmt s ip sp (Suc i) xs"
  by pat_completeness auto

termination
proof -
  have pair_size: "size_prod (\<lambda>x. 0) size = (\<lambda>p :: string \<times> schema. Suc (size (snd p)))"
    by (auto simp: fun_eq_iff)
  show ?thesis
    by (relation "inv_image (less_than <*lex*> less_than)
          (\<lambda>x. case x of
             Inl (Inl (fmt, s, ip, sp, v)) \<Rightarrow> (size s, 0)
           | Inl (Inr (fmt, kws, ip, sp, v)) \<Rightarrow> (size_list size kws, 0)
           | Inr (Inl (fmt, k, ip, sp, v)) \<Rightarrow> (size k, 0)
           | Inr (Inr (Inl (fmt, ps, ip, sp, obj))) \<Rightarrow> (size_list (\<lambda>p. Suc (size (snd p))) ps, 0)
           | Inr (Inr (Inr (fmt, s, ip, sp, i, xs))) \<Rightarrow> (size s, Suc (length xs)))")
       (auto simp: pair_size)
qed

text \<open>
  What the validator decides, without the error objects: \<open>valid fmt s v\<close> says that \<open>v\<close>
  satisfies every keyword of \<open>s\<close>. It is proved below to hold exactly when \<open>validate\<close>
  reports no error, whatever the paths.
\<close>

function (sequential) valid :: "(string \<Rightarrow> string \<Rightarrow> bool) \<Rightarrow> schema \<Rightarrow> jsval \<Rightarrow> bool"
  and valid_kws :: "(string \<Rightarrow> string \<Rightarrow> bool) \<Rightarrow> kw list \<Rightarrow> jsval \<Rightarrow> bool"
  and valid_kw :: "(string \<Rightarrow> string \<Rightarrow> bool) \<Rightarrow> kw \<Rightarrow> jsval \<Rightarrow> bool"
  and valid_props :: "(string \<Rightarrow> string \<Rightarrow> bool) \<Rightarrow> (string \<times> schema) list \<Rightarrow> (string \<times> jsval) list \<Rightarrow> bool"
  and valid_items :: "(string \<Rightarrow> string \<Rightarrow> bool) \<Rightarrow> schema \<Rightarrow> jsval list \<Rightarrow> bool"
where
  "valid fmt (Schema kws) v = valid_kws fmt kws v"
| "valid_kws fmt [] v = True"
| "valid_kws fmt (k # ks) v = (valid_kw fmt k v \<and> valid_kws fmt ks v)"
| "valid_kw fmt (Type ts) v = list_ex (\<lambda>t. has_type t v) ts"
| "valid_kw fmt (Properties ps) v = (case v of JObj obj \<Rightarrow> valid_props fmt ps obj | _ \<Rightarrow> True)"
| "valid_kw fmt (Required rs) v =
     (case v of JObj obj \<Rightarrow> list_all (\<lambda>r. own_property obj r \<noteq> JUndefined) rs | _ \<Rightarrow> True)"
| "valid_kw fmt (Items s) v = (case v of JArr xs \<Rightarrow> valid_items fmt s xs | _ \<Rightarrow> True)"
| "valid_kw fmt (Minimum m) v = (case v of JNum n \<Rightarrow> of_int m \<le> n | _ \<Rightarrow> True)"
| "valid_kw fmt (Format f) v = (case v of JStr s \<Rightarrow> fmt f s | _ \<Rightarrow> True)"
| "valid_kw fmt (Enum vs) v = (v \<in> set vs)"
| "valid_kw fmt AdditionalProperties_true v = True"
| "valid_kw fmt (Default d) v = True"
| "valid_props fmt [] obj = True"
| "valid_props fmt (p # ps) obj =
     ((own_property obj (fst p) = JUndefined \<or> valid fmt (snd p) (own_property obj (fst p)))
      \<and> valid_props fmt ps obj)"
| "valid_items fmt s [] = True"
| "valid_items fmt s (x # xs) = (valid fmt s x \<and> valid_items fmt s xs)"
  by pat_completeness auto

termination
proof -
  have pair_size: "size_prod (\<lambda>x. 0) size = (\<lambda>p :: string \<times> schema. Suc (size (snd p)))"
    by (auto simp: fun_eq_iff)
  show ?thesis
    by (relation "inv_image (less_than <*lex*> less_than)
          (\<lambda>x. case x of
             Inl (Inl (fmt, s, v)) \<Rightarrow> (size s, 0)
           | Inl (Inr (fmt, kws, v)) \<Rightarrow> (size_list size kws, 0)
           | Inr (Inl (fmt, k, v)) \<Rightarrow> (size k, 0)
           | Inr (Inr (Inl (fmt, ps, obj))) \<Rightarrow> (size_list (\<lambda>p. Suc (size (snd p))) ps, 0)
           | Inr (Inr (Inr (fmt, s, xs))) \<Rightarrow> (size s, Suc (length xs)))")
       (auto simp: pair_size)
qed

text \<open>\<^verbatim>\<open>financialDataSchema\<close>, part by part.\<close>

definition invoice_schema :: schema where
  "invoice_schema = Schema
     [Type [T_object],
      Properties
        [(''id'', Schema [Type [T_string, T_number]]),
         (''amount'', Schema [Type [T_number], Minimum 0]),
         (''date'', Schema [Type [T_string], Format ''date'']),
         (''description'', Schema [Type [T_string]]),
         (''customer'', Schema [Type [T_string]]),
         (''status'', Schema [Type [T_string],
            Enum [JStr ''pending'', JStr ''paid'', JStr ''overdue'', JStr ''cancelled'']])],
      Required [''amount'', ''date'']]"

definition expense_schema :: schema where
  "expense_schema = Schema
     [Type [T_object],
      Properties
        [(''id'', Schema [Type [T_string, T_number]]),
         (''amount'', Schema [Type [T_number], Minimum 0]),
         (''date'', Schema [Type [T_string], Format ''date'']),
         (''description'', Schema [Type [T_string]]),
         (''category'', Schema [Type [T_string]]),
         (''vendor'', Schema [Type [T_string]])],
      Required [''amount'', ''date'']]"

definition payment_schema :: schema where
  "payment_schema = Schema
     [Type [T_object],
      Properties
        [(''id'', Schema [Type [T_string, T_number]]),
         (''amount'', Schema [Type [T_number]]),
         (''date'', Schema [Type [T_string], Format ''date'']),
         (''description'', Schema [Type [T_string]]),
         (''type'', Schema [Type [T_string], Enum [JStr ''inbound'', JStr ''outbound'']]),
         (''method'', Schema [Type [T_string]])],
      Required [''amount'', ''date'', ''type'']]"

definition balance_schema :: schema where
  "balance_schema = Schema
     [Type [T_object],
      Properties
        [(''account'', Schema [Type [T_string]]),
         (''balance'', Schema [Type [T_number]]),
         (''date'', Schema [Type [T_string], Format ''date'']),
         (''currency'', Schema [Type [T_string], Default (JStr ''USD'')])],
      Required [''account'', ''balance'', ''date'']]"

definition metadata_schema :: schema where
  "metadata_schema = Schema
     [Type [T_object],
      Properties
        [(''source'', Schema [Type [T_string]]),
         (''timestamp'', Schema [Type [T_string], Format ''date-time'']),
         (''recordCount'', Schema [Type [T_number], Minimum 0])]]"

definition financialDataSchema :: schema where
  "financialDataSchema = Schema
     [Type [T_object],
      Properties
        [(''invoices'', Schema [Type [T_array], Items invoice_schema]),
         (''expenses'', Schema [Type [T_array], Items expense_schema]),
         (''payments'', Schema [Type [T_array], Items payment_schema]),
         (''balances'', Schema [Type [T_array], Items balance_schema]),
         (''metadata'', metadata_schema)],
      Required [''invoices'', ''expenses''],
      AdditionalProperties_true]"

text \<open>The compiled validator: the list of errors, empty when the data is valid.\<close>

definition validateFinancialData :: "(string \<Rightarrow> string \<Rightarrow> bool) \<Rightarrow> jsval \<Rightarrow> ajv_error list" where
  "validateFinancialData fmt data = validate fmt financialDataSchema [] ''#'' data"

text \<open>\<^verbatim>\<open>formatValidationError\<close>\<close>

record field_error =
  field :: string
  fe_message :: string
  fe_value :: jsval
  constraint :: params

definition formatValidationError :: "ajv_error \<Rightarrow> field_error" where
  "formatValidationError error =
     \<lparr>field = (if instancePath error \<noteq> [] then instancePath error else schemaPath error),
      fe_message = message error,
      fe_value = error_data error,
      constraint = params error\<rparr>"

text \<open>
  \<^verbatim>\<open>checkDataQuality\<close>. The spread \<^verbatim>\<open>...v\<close> into an array literal takes the elements of an
  array and the characters of a string, and throws on a value that is not iterable. The
  comparisons \<^verbatim>\<open>record.amount < 0\<close> and \<^verbatim>\<open>record.amount > 1000000\<close> are modelled on numbers.
\<close>

fun spread :: "jsval \<Rightarrow> jsval list outcome" where
  "spread (JArr xs) = Returns xs"
| "spread (JStr s) = Returns (map (\<lambda>c. JStr [c]) s)"
| "spread v = Throws TypeError"

fun filter_outcome :: "('a \<Rightarrow> bool outcome) \<Rightarrow> 'a list \<Rightarrow> 'a list outcome" where
  "filter_outcome p [] = Returns []"
| "filter_outcome p (x # xs) =
     bind (p x) (\<lambda>keep. bind (filter_outcome p xs) (\<lambda>ys. Returns (if keep then x # ys else ys)))"

definition without_date :: "jsval \<Rightarrow> bool outcome" where
  "without_date record = bind (get record ''date'') (\<lambda>d. Returns (\<not> truthy d))"

definition suspicious_amount :: "jsval \<Rightarrow> bool outcome" where
  "suspicious_amount record =
     bind (get record ''amount'') (\<lambda>a.
       if truthy a
       then (case a of JNum n \<Rightarrow> Returns (n < 0 \<or> n > 1000000) | _ \<Rightarrow> Unmodelled)
       else Returns False)"

definition checkDataQuality :: "jsval \<Rightarrow> string list outcome" where
  "checkDataQuality data =
     bind (get data ''invoices'') (\<lambda>invoices.
     bind (get data ''expenses'') (\<lambda>expenses.
     bind (spread (js_or invoices (JArr []))) (\<lambda>is.
     bind (spread (js_or expenses (JArr []))) (\<lambda>es.
     bind (get data ''payments'') (\<lambda>payments.
     bind (spread (js_or payments (JArr []))) (\<lambda>ps.
     bind (filter_outcome without_date (is @ es @ ps)) (\<lambda>recordsWithoutDates.
     bind (filter_outcome suspicious_amount (is @ es @ ps)) (\<lambda>suspiciousAmounts.
     Returns
       ((if get_opt invoices ''length'' = JNum 0
         then [''No invoice data provided - cash flow projections may be inaccurate'']
         else [])
        @ (if get_opt expenses ''length'' = JNum 0
           then [''No expense data provided - cost analysis will be limited'']
           else [])
        @ (if length recordsWithoutDates > 0
           then [show_nat (length recordsWithoutDates)
                 @ '' records missing dates - timeline analysis may be affected'']
           else [])
        @ (if length suspiciousAmounts > 0
           then [show_nat (length suspiciousAmounts)
                 @ '' records with unusual amounts detected'']
           else []))))))))))"

text \<open>A record with a number under \<^verbatim>\<open>amount\<close> and a string under \<^verbatim>\<open>date\<close>.\<close>

definition dated_amount :: "jsval \<Rightarrow> bool" where
  "dated_amount x = (\<exists>ob n s. x = JObj ob \<and> own_property ob ''amount'' = JNum n
                       \<and> own_property ob ''date'' = JStr s)"

record validation_result =
  isValid :: bool
  errors :: "field_error list"
  warnings :: "string list"

definition validateData :: "(string \<Rightarrow> string \<Rightarrow> bool) \<Rightarrow> jsval \<Rightarrow> validation_result outcome" where
  "validateData fmt data =
     (let errs = validateFinancialData fmt data
      in if errs = []
         then bind (checkDataQuality data)
                (\<lambda>ws. Returns \<lparr>isValid = True, errors = [], warnings = ws\<rparr>)
         else Returns \<lparr>isValid = False, errors = map formatValidationError errs, warnings = []\<rparr>)"

text \<open>
  The format \<^verbatim>\<open>date\<close> of \<^verbatim>\<open>ajv-formats\<close>: a full-date of RFC 3339, \<^verbatim>\<open>YYYY-MM-DD\<close> with a
  month from 1 to 12 and a day that the month has.
\<close>

definition isLeapYear :: "nat \<Rightarrow> bool" where
  "isLeapYear year = (year mod 4 = 0 \<and> (year mod 100 \<noteq> 0 \<or> year mod 400 = 0))"

definition days_in_month :: "nat \<Rightarrow> nat" where
  "days_in_month month = [0, 31, 28, 31, 30, 31, 30, 31, 31, 30, 31, 30, 31] ! month"

definition full_date :: "string \<Rightarrow> bool" where
  "full_date s =
     (length s = 10 \<and> s ! 4 = CHR ''-'' \<and> s ! 7 = CHR ''-''
      \<and> list_all is_digit (take 4 s @ take 2 (drop 5 s) @ drop 8 s)
      \<and> (let year = decimal (take 4 s); month = decimal (take 2 (drop 5 s)); day = decimal (drop 8 s)
         in 1 \<le> month \<and> month \<le> 12 \<and> 1 \<le> day
            \<and> day \<le> (if month = 2 \<and> isLeapYear year then 29 else days_in_month month)))"

text \<open>
  A format predicate that knows the format \<^verbatim>\<open>date\<close> only, for the evaluations below on
  data that holds no \<^verbatim>\<open>metadata.timestamp\<close>: the format \<^verbatim>\<open>date-time\<close> is not modelled, and
  every general statement below holds for all format predicates.
\<close>

definition date_format :: "string \<Rightarrow> string \<Rightarrow> bool" where
  "date_format f s = (f = ''date'' \<and> full_date s)"

section \<open>Properties of the cleaner\<close>

lemma dropWhile_rev_dropWhile_front:
  "dropWhile P (rev (dropWhile P (rev (dropWhile P s)))) = rev (dropWhile P (rev (dropWhile P s)))"
proof (cases "dropWhile P s")
  case Nil
  show ?thesis unfolding Nil by simp
next
  case (Cons x xs)
  then have nx: "\<not> P x" by (metis hd_dropWhile list.sel(1) list.distinct(1))
  have "rev (dropWhile P (rev (x # xs))) = x # rev (dropWhile P (rev xs))"
    using nx by (simp add: dropWhile_append)
  thus ?thesis using nx Cons by simp
qed

lemma trim_idem: "trim (trim s) = trim s"
  unfolding trim_def by (simp add: dropWhile_rev_dropWhile_front)

lemma not_digit_minus: "\<not> is_digit (CHR ''-'')" and not_digit_point: "\<not> is_digit (CHR ''.'')"
  by (simp_all add: is_digit_def)

lemma optional_split: "\<exists>p. (p = [] \<or> p = [c]) \<and> s = p @ optional c s"
  by (cases s) auto

lemma optional_skip: "s = [] \<or> hd s \<noteq> c \<Longrightarrow> optional c s = s"
  by (cases s) auto

lemma dropWhile_all: "list_all P xs \<Longrightarrow> dropWhile P (xs @ ys) = dropWhile P ys"
  by (induction xs) auto

lemma takeWhile_all: "list_all P xs \<Longrightarrow> takeWhile P (xs @ ys) = xs @ takeWhile P ys"
  by (induction xs) auto

lemma dropWhile_all_nil: "list_all P xs \<Longrightarrow> dropWhile P xs = []"
  by (induction xs) auto

text \<open>
  The test accepts exactly the strings of the shape sign, integer part, point, fraction: the
  language of the regular expression \<^verbatim>\<open>^-?\d+\.?\d*$\<close>.
\<close>

lemma numeric_test_sound:
  assumes "numeric_test t"
  shows "\<exists>sign ip pt fp. t = sign @ ip @ pt @ fp \<and> (sign = [] \<or> sign = ''-'') \<and>
           ip \<noteq> [] \<and> list_all is_digit ip \<and> (pt = [] \<or> pt = ''.'') \<and> list_all is_digit fp"
proof -
  define s1 where "s1 = optional (CHR ''-'') t"
  define r where "r = dropWhile is_digit s1"
  obtain sign where sign: "sign = [] \<or> sign = ''-''" "t = sign @ s1"
    using optional_split[of "CHR ''-''" t] unfolding s1_def by blast
  obtain pt where pt: "pt = [] \<or> pt = ''.''" "r = pt @ optional (CHR ''.'') r"
    using optional_split[of "CHR ''.''" r] by blast
  have s1: "s1 = takeWhile is_digit s1 @ r" by (simp add: r_def)
  have "t = sign @ takeWhile is_digit s1 @ pt @ optional (CHR ''.'') r"
    using sign(2) s1 pt(2) by metis
  moreover have "takeWhile is_digit s1 \<noteq> []" "list_all is_digit (optional (CHR ''.'') r)"
    using assms by (simp_all add: numeric_test_def Let_def s1_def r_def)
  moreover have "list_all is_digit (takeWhile is_digit s1)"
    by (simp add: list_all_iff) (meson set_takeWhileD)
  ultimately show ?thesis using sign(1) pt(1) by blast
qed

lemma numeric_test_complete:
  assumes "t = sign @ ip @ pt @ fp" "sign = [] \<or> sign = ''-''" "ip \<noteq> []" "list_all is_digit ip"
    "pt = [] \<or> pt = ''.''" "list_all is_digit fp"
  shows "numeric_test t"
proof -
  have hd_ip: "is_digit (hd ip)" using assms(3,4) by (cases ip) auto
  have s1: "optional (CHR ''-'') t = ip @ pt @ fp"
  proof (cases "sign = []")
    case True
    have "hd (ip @ pt @ fp) \<noteq> CHR ''-''" using hd_ip assms(3) not_digit_minus by auto
    then show ?thesis using True assms(1) by (simp add: optional_skip)
  next
    case False
    then show ?thesis using assms(1,2) by simp
  qed
  have tw: "takeWhile is_digit (ip @ pt @ fp) \<noteq> []"
    using assms(3,4) by (simp add: takeWhile_all)
  have dw: "dropWhile is_digit (ip @ pt @ fp) = dropWhile is_digit (pt @ fp)"
    using assms(4) by (simp add: dropWhile_all)
  have "list_all is_digit (optional (CHR ''.'') (dropWhile is_digit (pt @ fp)))"
  proof (cases "pt = []")
    case True
    then show ?thesis using assms(6) by (simp add: dropWhile_all_nil)
  next
    case False
    then show ?thesis using assms(5,6) not_digit_point by simp
  qed
  then show ?thesis by (simp add: numeric_test_def Let_def s1 tw dw)
qed

lemma numeric_test_iff:
  "numeric_test t \<longleftrightarrow>
     (\<exists>sign ip pt fp. t = sign @ ip @ pt @ fp \<and> (sign = [] \<or> sign = ''-'') \<and>
        ip \<noteq> [] \<and> list_all is_digit ip \<and> (pt = [] \<or> pt = ''.'') \<and> list_all is_digit fp)"
  using numeric_test_sound numeric_test_complete by blast

lemma update_fresh: "k \<notin> fst ` set ps \<Longrightarrow> AList.update k v ps = ps @ [(k, v)]"
  by (induction ps) auto

lemma set_update_cases: "x \<in> set (AList.update k v ps) \<Longrightarrow> x = (k, v) \<or> x \<in> set ps"
  by (induction ps) (auto split: if_splits)

lemma clean_value_stable: "clean_value v = Some w \<Longrightarrow> clean_value w = Some w"
  by (cases v) (auto simp: Let_def trim_idem split: if_splits)

lemma settled_clean_field: "settled acc \<Longrightarrow> settled (clean_field acc kv)"
  unfolding settled_def clean_field_def set_property_def
  by (auto simp: list_all_iff distinct_update split: option.splits dest!: set_update_cases
      dest: clean_value_stable)

lemma settled_foldl: "settled acc \<Longrightarrow> settled (foldl clean_field acc es)"
  by (induction es arbitrary: acc) (auto simp: settled_clean_field)

lemma foldl_settled_append:
  "settled (acc @ ps) \<Longrightarrow> foldl clean_field acc ps = acc @ ps"
proof (induction ps arbitrary: acc)
  case Nil
  then show ?case by simp
next
  case (Cons kv ps)
  obtain k v where kv: "kv = (k, v)" by (cases kv)
  from Cons.prems have fresh: "k \<notin> fst ` set acc" and cv: "clean_value v = Some v"
    and np: "k \<noteq> ''__proto__''"
    by (auto simp: settled_def kv)
  have "clean_field acc kv = acc @ [kv]"
    by (simp add: clean_field_def kv cv set_property_def np update_fresh[OF fresh])
  moreover have "settled ((acc @ [kv]) @ ps)" using Cons.prems by simp
  ultimately show ?case using Cons.IH[of "acc @ [kv]"] by simp
qed

lemma cleanRecord_fixed:
  assumes "cleanRecord r = Returns c"
  shows "cleanRecord c = Returns c"
proof -
  from assms obtain es where es: "entries r = Returns es" and c: "c = JObj (foldl clean_field [] es)"
    by (cases "entries r") (auto simp: cleanRecord_def)
  have "settled (foldl clean_field [] es)" by (rule settled_foldl) (simp add: settled_def)
  then have "foldl clean_field [] (foldl clean_field [] es) = foldl clean_field [] es"
    using foldl_settled_append[of "[]"] by simp
  then show ?thesis by (simp add: cleanRecord_def c)
qed

text \<open>
  C6. Cleaning is idempotent: for every raw record \<open>r\<close> (an object, given by its fields
  \<open>ps\<close>), \<open>clean r\<close> is defined and \<open>clean (clean r) = clean r\<close>.
\<close>

theorem cleanRecord_idempotent:
  "\<exists>c. cleanRecord (JObj ps) = Returns c \<and> cleanRecord c = Returns c"
proof -
  have "cleanRecord (JObj ps) = Returns (JObj (foldl clean_field [] ps))"
    by (simp add: cleanRecord_def)
  then show ?thesis using cleanRecord_fixed by blast
qed

theorem cleanRecord_idempotent_witness:
  "cleanRecord (JObj [(''amount'', JStr '' 12.50 ''), (''note'', JNull), (''memo'', JStr '' paid '')])
     = Returns (JObj [(''amount'', JNum 12.5), (''memo'', JStr ''paid'')])
   \<and> cleanRecord (JObj [(''amount'', JNum 12.5), (''memo'', JStr ''paid'')])
     = Returns (JObj [(''amount'', JNum 12.5), (''memo'', JStr ''paid'')])"
proof -
  have e: "cleanRecord (JObj [(''amount'', JStr '' 12.50 ''), (''note'', JNull), (''memo'', JStr '' paid '')])
     = Returns (JObj [(''amount'', JNum 12.5), (''memo'', JStr ''paid'')])"
    by code_simp
  from cleanRecord_idempotent[of "[(''amount'', JStr '' 12.50 ''), (''note'', JNull), (''memo'', JStr '' paid '')]"]
  obtain c where
    "cleanRecord (JObj [(''amount'', JStr '' 12.50 ''), (''note'', JNull), (''memo'', JStr '' paid '')]) = Returns c"
    "cleanRecord c = Returns c"
    by blast
  with e show ?thesis by simp
qed

lemma claimed_pattern_ends_in_digit:
  assumes "claimed_numeric_pattern t"
  shows "t \<noteq> [] \<and> is_digit (last t)"
proof -
  from assms obtain sign ip frac where t: "t = sign @ ip @ frac" and ip: "ip \<noteq> []" "list_all is_digit ip"
    and frac: "frac = [] \<or> (\<exists>fp. frac = ''.'' @ fp \<and> fp \<noteq> [] \<and> list_all is_digit fp)"
    unfolding claimed_numeric_pattern_def by blast
  from frac show ?thesis
  proof
    assume "frac = []"
    then show ?thesis using t ip by (simp add: list_all_iff)
  next
    assume "\<exists>fp. frac = ''.'' @ fp \<and> fp \<noteq> [] \<and> list_all is_digit fp"
    then obtain fp where "frac = ''.'' @ fp" "fp \<noteq> []" "list_all is_digit fp" by blast
    then show ?thesis using t by (simp add: list_all_iff)
  qed
qed

lemma claimed_pattern_accepted:
  assumes "claimed_numeric_pattern t"
  shows "numeric_test t"
proof -
  from assms obtain sign ip frac where t: "t = sign @ ip @ frac" and s: "sign = [] \<or> sign = ''-''"
    and ip: "ip \<noteq> []" "list_all is_digit ip"
    and frac: "frac = [] \<or> (\<exists>fp. frac = ''.'' @ fp \<and> fp \<noteq> [] \<and> list_all is_digit fp)"
    unfolding claimed_numeric_pattern_def by blast
  from frac have "\<exists>pt fp. frac = pt @ fp \<and> (pt = [] \<or> pt = ''.'') \<and> list_all is_digit fp"
  proof
    assume "frac = []"
    then show ?thesis by simp
  next
    assume "\<exists>fp. frac = ''.'' @ fp \<and> fp \<noteq> [] \<and> list_all is_digit fp"
    then obtain fp where "frac = ''.'' @ fp" "list_all is_digit fp" by blast
    then show ?thesis by blast
  qed
  then obtain pt fp where "frac = pt @ fp" "pt = [] \<or> pt = ''.''" "list_all is_digit fp"
    by blast
  then show ?thesis using numeric_test_complete[of t sign ip pt fp] t s ip by simp
qed

text \<open>
  C7, as stated: a trimmed string is converted to a number exactly when it matches an
  optional leading minus, digits, and an optional decimal point with trailing digits. The
  string \<^verbatim>\<open>5.\<close> has a decimal point and no digit after it, and is converted to the
  number 5.
\<close>

theorem trailing_point_is_converted:
  "clean_value (JStr ''5.'') = Some (JNum 5) \<and> \<not> claimed_numeric_pattern ''5.''"
proof -
  have "clean_value (JStr ''5.'') = Some (JNum 5)" by code_simp
  moreover have "\<not> is_digit (last ''5.'')" by (simp add: is_digit_def)
  ultimately show ?thesis using claimed_pattern_ends_in_digit[of "''5.''"] by blast
qed

text \<open>
  C7, amended: cleaning converts a trimmed, non-empty string to a number exactly when it
  matches the strict numeric pattern of an optional leading minus, one or more digits, an
  optional single decimal point, and zero or more trailing digits (no exponent, no
  thousands separators); any other trimmed, non-empty string, such as \<^verbatim>\<open>abc123\<close>, is
  kept as that string. So \<open>clean {amount: "123.45"}\<close> is \<open>{amount: 123.45}\<close>, with a
  number, and \<open>clean {note: "abc123"}\<close> keeps the string.
\<close>

theorem clean_value_numeric_pattern:
  "clean_value (JStr s) =
     (if trim s = [] then None
      else if (\<exists>sign ip pt fp. trim s = sign @ ip @ pt @ fp \<and> (sign = [] \<or> sign = ''-'') \<and>
                 ip \<noteq> [] \<and> list_all is_digit ip \<and> (pt = [] \<or> pt = ''.'') \<and> list_all is_digit fp)
      then Some (JNum (parseFloat (trim s)))
      else Some (JStr (trim s)))
   \<and> cleanRecord (JObj [(''amount'', JStr ''123.45'')]) = Returns (JObj [(''amount'', JNum 123.45)])
   \<and> cleanRecord (JObj [(''note'', JStr ''abc123'')]) = Returns (JObj [(''note'', JStr ''abc123'')])
   \<and> clean_value (JStr ''1e5'') = Some (JStr ''1e5'')
   \<and> clean_value (JStr ''1,000'') = Some (JStr ''1,000'')"
proof -
  have general: "clean_value (JStr s) =
     (if trim s = [] then None
      else if (\<exists>sign ip pt fp. trim s = sign @ ip @ pt @ fp \<and> (sign = [] \<or> sign = ''-'') \<and>
                 ip \<noteq> [] \<and> list_all is_digit ip \<and> (pt = [] \<or> pt = ''.'') \<and> list_all is_digit fp)
      then Some (JNum (parseFloat (trim s)))
      else Some (JStr (trim s)))"
    unfolding numeric_test_iff[symmetric] by (simp add: Let_def)
  have amount: "cleanRecord (JObj [(''amount'', JStr ''123.45'')]) = Returns (JObj [(''amount'', JNum 123.45)])"
    by code_simp
  have kept: "cleanRecord (JObj [(''note'', JStr ''abc123'')]) = Returns (JObj [(''note'', JStr ''abc123'')])"
    by code_simp
  have exponent: "clean_value (JStr ''1e5'') = Some (JStr ''1e5'')"
    by code_simp
  have separator: "clean_value (JStr ''1,000'') = Some (JStr ''1,000'')"
    by code_simp
  show ?thesis using general amount kept exponent separator by blast
qed

theorem clean_value_numeric_pattern_witness:
  "clean_value (JStr '' -7.25 '') = Some (JNum (- 7.25))"
proof -
  have t: "trim '' -7.25 '' = ''-7.25''" by code_simp
  have shape: "\<exists>sign ip pt fp. trim '' -7.25 '' = sign @ ip @ pt @ fp \<and> (sign = [] \<or> sign = ''-'') \<and>
                 ip \<noteq> [] \<and> list_all is_digit ip \<and> (pt = [] \<or> pt = ''.'') \<and> list_all is_digit fp"
    unfolding t
    by (rule exI[of _ "''-''"], rule exI[of _ "''7''"], rule exI[of _ "''.''"], rule exI[of _ "''25''"])
       (simp add: is_digit_def)
  have v: "parseFloat ''-7.25'' = - 7.25" by code_simp
  from clean_value_numeric_pattern[of "'' -7.25 ''"]
  have "clean_value (JStr '' -7.25 '') =
     (if trim '' -7.25 '' = [] then None
      else if (\<exists>sign ip pt fp. trim '' -7.25 '' = sign @ ip @ pt @ fp \<and> (sign = [] \<or> sign = ''-'') \<and>
                 ip \<noteq> [] \<and> list_all is_digit ip \<and> (pt = [] \<or> pt = ''.'') \<and> list_all is_digit fp)
      then Some (JNum (parseFloat (trim '' -7.25 '')))
      else Some (JStr (trim '' -7.25 '')))"
    by blast
  then show ?thesis using shape by (simp add: t v)
qed

section \<open>Properties of the classifier\<close>

lemma explicit_type_range:
  "explicit_type t = Some c \<Longrightarrow> c \<in> {''invoices'', ''expenses'', ''payments'', ''balances''}"
  by (auto simp: explicit_type_def split: if_splits)

lemma by_field_names_range:
  "by_field_names ks \<in> {''invoices'', ''expenses'', ''payments'', ''balances''}"
  by (simp add: by_field_names_def)

lemma entries_Returns: "r \<noteq> JNull \<Longrightarrow> r \<noteq> JUndefined \<Longrightarrow> \<exists>ps. entries r = Returns ps"
  by (cases r) auto

lemma get_Returns: "r \<noteq> JNull \<Longrightarrow> r \<noteq> JUndefined \<Longrightarrow> get r k = Returns (get_opt r k)"
  by (cases r) (auto simp: get_opt_def)

lemma get_nullish: "r = JNull \<or> r = JUndefined \<Longrightarrow> get r k = Throws TypeError"
  by auto

text \<open>detectRecordType returns one of the four bucket names or throws a TypeError.\<close>

lemma detectRecordType_cases:
  "(\<exists>c \<in> {''invoices'', ''expenses'', ''payments'', ''balances''}. detectRecordType r = Returns c)
   \<or> detectRecordType r = Throws TypeError"
proof (cases "r = JNull \<or> r = JUndefined")
  case True
  then show ?thesis by (auto simp: detectRecordType_def)
next
  case False
  then obtain ps where ps: "entries r = Returns ps" using entries_Returns by blast
  have g: "get r ''type'' = Returns (get_opt r ''type'')" using False get_Returns by blast
  show ?thesis
  proof (cases "truthy (get_opt r ''type'')")
    case nt: False
    then show ?thesis using by_field_names_range
      by (simp add: detectRecordType_def g ps)
  next
    case tt: True
    show ?thesis
    proof (cases "get_opt r ''type''")
      case (JStr s)
      then show ?thesis using by_field_names_range explicit_type_range[of "toLowerCase s"] tt
        by (cases "explicit_type (toLowerCase s)") (auto simp: detectRecordType_def g ps)
    qed (use tt in \<open>auto simp: detectRecordType_def g\<close>)
  qed
qed

lemma detectRecordType_throws_iff:
  "detectRecordType r = Throws TypeError \<longleftrightarrow>
     (r = JNull \<or> r = JUndefined \<or>
      (truthy (get_opt r ''type'') \<and> (\<forall>s. get_opt r ''type'' \<noteq> JStr s)))"
proof (cases "r = JNull \<or> r = JUndefined")
  case True
  then show ?thesis by (auto simp: detectRecordType_def)
next
  case False
  then obtain ps where ps: "entries r = Returns ps" using entries_Returns by blast
  have g: "get r ''type'' = Returns (get_opt r ''type'')" using False get_Returns by blast
  show ?thesis using False
    by (cases "get_opt r ''type''")
       (auto simp: detectRecordType_def g ps split: option.splits)
qed

lemma detectRecordType_not_Unmodelled: "detectRecordType r \<noteq> Unmodelled"
  using detectRecordType_cases[of r] by auto

lemma list_ex_or: "list_ex (\<lambda>k. P k \<or> Q k) ks = (list_ex P ks \<or> list_ex Q ks)"
  by (induction ks) auto

lemma by_field_names_spec:
  "by_field_names (map (\<lambda>kv. toLowerCase (fst kv)) ps) =
     bucket (case find (rule_matches (map fst ps)) name_rules of
               Some rule \<Rightarrow> fst rule | None \<Rightarrow> Expense)"
  by (simp add: by_field_names_def name_rules_def rule_matches_def list_ex_or list_ex_iff)

lemma toLowerCase_Nil: "toLowerCase [] = []"
  by (simp add: toLowerCase_def)

lemma explicit_type_spec: "explicit_type t = map_option bucket (tag_category t)"
  by (simp add: explicit_type_def tag_category_def)

lemma detectRecordType_refines_classify_spec:
  assumes "\<not> truthy (own_property ps ''type'') \<or> (\<exists>t. own_property ps ''type'' = JStr t)"
  shows "detectRecordType (JObj ps) = Returns (bucket (classify_spec ps))"
proof (cases "map_of ps ''type''")
  case None
  then show ?thesis
    by (simp add: detectRecordType_def own_property_def classify_spec_def by_field_names_spec)
next
  case (Some v)
  then have own: "own_property ps ''type'' = v" by (simp add: own_property_def)
  show ?thesis
  proof (cases "\<exists>t. v = JStr t")
    case True
    then obtain t where t: "v = JStr t" by blast
    show ?thesis
    proof (cases "t = []")
      case True
      then show ?thesis
        by (simp add: detectRecordType_def own t Some classify_spec_def by_field_names_spec
            tag_category_def toLowerCase_Nil)
    next
      case False
      then show ?thesis
        by (cases "tag_category (toLowerCase t)")
           (simp_all add: detectRecordType_def own t Some classify_spec_def by_field_names_spec
             explicit_type_spec)
    qed
  next
    case False
    then have "\<not> truthy v" using assms own by auto
    then show ?thesis using False
      by (cases v) (simp_all add: detectRecordType_def own Some classify_spec_def by_field_names_spec)
  qed
qed


text \<open>
  C4. The claim: classification is total and never throws, also on a record whose \<^verbatim>\<open>type\<close>
  holds a number. The code: on the row \<open>{type: 5, amount: 100}\<close>, which \<^verbatim>\<open>parseCSV\<close>
  produces from the line \<^verbatim>\<open>5,100\<close> under the header \<^verbatim>\<open>type,amount\<close>, the call
  \<^verbatim>\<open>record.type.toLowerCase()\<close> throws a \<^verbatim>\<open>TypeError\<close>, and normalization of the flat
  sequence fails with it.
\<close>

theorem detectRecordType_throws_on_numeric_type:
  "detectRecordType (JObj [(''type'', JNum 5), (''amount'', JNum 100)]) = Throws TypeError
   \<and> normalizeFinancialData Map.empty ''2024-02-01T00:00:00.000Z''
         (JArr [JObj [(''type'', JNum 5), (''amount'', JNum 100)]])
       = Throws (NormalizationFailed TypeError)"
  by code_simp

text \<open>
  C5. The claim: every raw record is classified by the ordered algorithm, an explicit
  \<^verbatim>\<open>type\<close> that is none of the six tags falling through to the field names. The code
  follows the algorithm on every record whose \<^verbatim>\<open>type\<close> is absent, falsy or a string
  (\<open>detectRecordType_refines_classify_spec\<close>), and so classifies
  \<open>{type: "payment", invoice_number: "x"}\<close> as payment and \<open>{foo: 1, bar: 2}\<close> as expense;
  on \<open>{type: 1, invoice_number: "x"}\<close> the algorithm falls through to the field names and
  answers invoice, and the code throws.
\<close>

theorem detectRecordType_leaves_algorithm_on_numeric_type:
  "classify_spec [(''type'', JNum 1), (''invoice_number'', JStr ''x'')] = Invoice
   \<and> detectRecordType (JObj [(''type'', JNum 1), (''invoice_number'', JStr ''x'')]) = Throws TypeError
   \<and> detectRecordType (JObj [(''type'', JStr ''payment''), (''invoice_number'', JStr ''x'')])
       = Returns ''payments''
   \<and> detectRecordType (JObj [(''foo'', JNum 1), (''bar'', JNum 2)]) = Returns ''expenses''"
  by code_simp

section \<open>Properties of the normalizer\<close>

lemma categorize_record_buckets:
  assumes "detectRecordType r = Returns t"
  shows "categorize_record
           [(''invoices'', JArr a), (''expenses'', JArr b), (''payments'', JArr c), (''balances'', JArr d)] r
         = Returns [(''invoices'', JArr (a @ filter (\<lambda>r. detectRecordType r = Returns ''invoices'') [r])),
                    (''expenses'', JArr (b @ filter (\<lambda>r. detectRecordType r = Returns ''expenses'') [r])),
                    (''payments'', JArr (c @ filter (\<lambda>r. detectRecordType r = Returns ''payments'') [r])),
                    (''balances'', JArr (d @ filter (\<lambda>r. detectRecordType r = Returns ''balances'') [r]))]"
proof -
  from detectRecordType_cases[of r] assms
  have "t \<in> {''invoices'', ''expenses'', ''payments'', ''balances''}" by auto
  then show ?thesis using assms
    by (auto simp: categorize_record_def own_property_def push_def)
qed

lemma categorize_each_buckets:
  "categorize_each xs
     [(''invoices'', JArr a), (''expenses'', JArr b), (''payments'', JArr c), (''balances'', JArr d)]
   = (if list_ex (\<lambda>r. detectRecordType r = Throws TypeError) xs then Throws TypeError
      else Returns [(''invoices'', JArr (a @ filter (\<lambda>r. detectRecordType r = Returns ''invoices'') xs)),
                    (''expenses'', JArr (b @ filter (\<lambda>r. detectRecordType r = Returns ''expenses'') xs)),
                    (''payments'', JArr (c @ filter (\<lambda>r. detectRecordType r = Returns ''payments'') xs)),
                    (''balances'', JArr (d @ filter (\<lambda>r. detectRecordType r = Returns ''balances'') xs))])"
proof (induction xs arbitrary: a b c d)
  case Nil
  then show ?case by simp
next
  case (Cons x xs)
  show ?case
  proof (cases "detectRecordType x = Throws TypeError")
    case True
    then show ?thesis by (simp add: categorize_record_def)
  next
    case False
    then obtain t where t: "detectRecordType x = Returns t"
      using detectRecordType_cases[of x] by auto
    show ?thesis
      using False
      by (simp add: categorize_record_buckets[OF t] Cons.IH)
  qed
qed

lemma categorizeFlatData_buckets:
  "categorizeFlatData xs
   = (if list_ex (\<lambda>r. detectRecordType r = Throws TypeError) xs then Throws TypeError
      else Returns (JObj [(''invoices'', JArr (filter (\<lambda>r. detectRecordType r = Returns ''invoices'') xs)),
                    (''expenses'', JArr (filter (\<lambda>r. detectRecordType r = Returns ''expenses'') xs)),
                    (''payments'', JArr (filter (\<lambda>r. detectRecordType r = Returns ''payments'') xs)),
                    (''balances'', JArr (filter (\<lambda>r. detectRecordType r = Returns ''balances'') xs))]))"
  using categorize_each_buckets[of xs "[]" "[]" "[]" "[]"]
  by (simp add: categorizeFlatData_def)

lemma length_or_0_Returns:
  "data \<noteq> JNull \<Longrightarrow> data \<noteq> JUndefined \<Longrightarrow> length_or_0 data k = Returns (count_of data k)"
  by (simp add: length_or_0_def get_Returns count_of_def)

lemma getTotalRecordCount_unfold:
  assumes "data \<noteq> JNull" "data \<noteq> JUndefined"
  shows "getTotalRecordCount data =
     bind (js_add (count_of data ''invoices'') (count_of data ''expenses'')) (\<lambda>ab.
     bind (js_add ab (count_of data ''payments'')) (\<lambda>abc.
     js_add abc (count_of data ''balances'')))"
  by (simp add: getTotalRecordCount_def length_or_0_Returns[OF assms])

lemma getTotalRecordCount_no_throw:
  assumes "data \<noteq> JNull" "data \<noteq> JUndefined"
  shows "getTotalRecordCount data \<noteq> Throws e"
proof -
  have j: "js_add x y \<noteq> Throws e" for x y by (cases "(x, y)" rule: js_add.cases) auto
  show ?thesis
    unfolding getTotalRecordCount_unfold[OF assms]
    by (cases "js_add (count_of data ''invoices'') (count_of data ''expenses'')";
        cases "js_add (case js_add (count_of data ''invoices'') (count_of data ''expenses'') of Returns x \<Rightarrow> x | _ \<Rightarrow> JNull) (count_of data ''payments'')")
       (auto simp: j)
qed

lemma js_add_Returns:
  "js_add x y = Returns z \<Longrightarrow> \<exists>a b. x = JNum a \<and> y = JNum b \<and> z = JNum (a + b)"
  by (cases "(x, y)" rule: js_add.cases) auto

lemma getTotalRecordCount_Returns:
  assumes "data \<noteq> JNull" "data \<noteq> JUndefined" "getTotalRecordCount data = Returns rc"
  shows "\<exists>a b c d. count_of data ''invoices'' = JNum a \<and> count_of data ''expenses'' = JNum b
           \<and> count_of data ''payments'' = JNum c \<and> count_of data ''balances'' = JNum d
           \<and> rc = JNum (a + b + c + d)"
proof -
  from assms(3) obtain ab where ab: "js_add (count_of data ''invoices'') (count_of data ''expenses'') = Returns ab"
    and r1: "bind (js_add ab (count_of data ''payments'')) (\<lambda>abc. js_add abc (count_of data ''balances'')) = Returns rc"
    unfolding getTotalRecordCount_unfold[OF assms(1,2)]
    by (cases "js_add (count_of data ''invoices'') (count_of data ''expenses'')") auto
  from r1 obtain abc where abc: "js_add ab (count_of data ''payments'') = Returns abc"
    and r2: "js_add abc (count_of data ''balances'') = Returns rc"
    by (cases "js_add ab (count_of data ''payments'')") auto
  from js_add_Returns[OF ab] js_add_Returns[OF abc] js_add_Returns[OF r2]
  show ?thesis by auto
qed

lemma assemble_nullish:
  "data = JNull \<or> data = JUndefined \<Longrightarrow> assemble now data = Throws TypeError"
  by (auto simp: assemble_def)

lemma assemble_unfold:
  assumes "data \<noteq> JNull" "data \<noteq> JUndefined"
  shows "assemble now data =
     bind (getTotalRecordCount data) (\<lambda>recordCount.
     Returns (JObj
       [(''invoices'', js_or (get_opt data ''invoices'') (JArr [])),
        (''expenses'', js_or (get_opt data ''expenses'') (JArr [])),
        (''payments'', js_or (get_opt data ''payments'') (JArr [])),
        (''balances'', js_or (get_opt data ''balances'') (JArr [])),
        (''metadata'', JObj
           [(''source'', js_or (get_opt data ''source'') (JStr ''manual_input'')),
            (''timestamp'', JStr now),
            (''recordCount'', recordCount)])]))"
  by (simp add: assemble_def get_Returns[OF assms])

lemma assemble_Throws: "assemble now data = Throws e \<Longrightarrow> e = TypeError"
proof (cases "data = JNull \<or> data = JUndefined")
  case True
  assume "assemble now data = Throws e"
  then show ?thesis using assemble_nullish[OF True, of now] by simp
next
  case False
  assume a: "assemble now data = Throws e"
  from False have n: "data \<noteq> JNull" "data \<noteq> JUndefined" by auto
  show ?thesis using a getTotalRecordCount_no_throw[OF n, of e]
    unfolding assemble_unfold[OF n]
    by (cases "getTotalRecordCount data") auto
qed

lemma categorize_if_array_Throws: "categorize_if_array parsed = Throws e \<Longrightarrow> e = TypeError"
  by (cases parsed) (auto simp: categorize_if_array_def categorizeFlatData_buckets split: if_splits)

lemma categorize_if_array_not_nullish:
  "categorize_if_array parsed = Returns data \<Longrightarrow> (data = JNull \<or> data = JUndefined) = (parsed = JNull \<or> parsed = JUndefined)"
  by (cases parsed) (auto simp: categorize_if_array_def categorizeFlatData_buckets split: if_splits)

lemma parse_input_Throws:
  "parse_input P input = Throws e \<longleftrightarrow> (e = Error ''Invalid JSON format'' \<and> (\<exists>s. input = JStr s \<and> P s = None))"
  by (cases input) (auto simp: parse_input_def split: option.splits)

lemma parse_input_not_Unmodelled: "parse_input P input \<noteq> Unmodelled"
  by (cases input) (auto simp: parse_input_def split: option.splits)

lemma count_of_array_output:
  assumes "js_or v (JArr []) = JArr a"
  shows "js_or (get_opt v ''length'') (JNum 0) = JNum (of_nat (length a))"
  using assms by (cases v) (auto simp: js_or_def get_opt_def split: if_splits)

lemma normalize_Returns:
  "normalizeFinancialData P now input = Returns n \<longleftrightarrow>
     (\<exists>parsed data. parse_input P input = Returns parsed \<and> categorize_if_array parsed = Returns data
        \<and> assemble now data = Returns n)"
  by (cases "parse_input P input"; cases "categorize_if_array (case parse_input P input of Returns x \<Rightarrow> x | _ \<Rightarrow> JNull)";
      cases "assemble now (case categorize_if_array (case parse_input P input of Returns x \<Rightarrow> x | _ \<Rightarrow> JNull) of Returns x \<Rightarrow> x | _ \<Rightarrow> JNull)")
     (auto simp: normalizeFinancialData_def normalize_try_def)

lemma normalize_Throws:
  "normalizeFinancialData P now input = Throws e \<longleftrightarrow>
     (\<exists>cause. e = NormalizationFailed cause \<and>
        (parse_input P input = Throws cause
         \<or> (\<exists>parsed. parse_input P input = Returns parsed \<and>
               (categorize_if_array parsed = Throws cause
                \<or> (\<exists>data. categorize_if_array parsed = Returns data \<and> assemble now data = Throws cause)))))"
  by (cases "parse_input P input"; cases "categorize_if_array (case parse_input P input of Returns x \<Rightarrow> x | _ \<Rightarrow> JNull)";
      cases "assemble now (case categorize_if_array (case parse_input P input of Returns x \<Rightarrow> x | _ \<Rightarrow> JNull) of Returns x \<Rightarrow> x | _ \<Rightarrow> JNull)")
     (auto simp: normalizeFinancialData_def normalize_try_def)

lemma assemble_Returns:
  assumes "assemble now data = Returns n"
  shows "data \<noteq> JNull \<and> data \<noteq> JUndefined \<and>
     (\<exists>rc. getTotalRecordCount data = Returns rc \<and>
       n = JObj
       [(''invoices'', js_or (get_opt data ''invoices'') (JArr [])),
        (''expenses'', js_or (get_opt data ''expenses'') (JArr [])),
        (''payments'', js_or (get_opt data ''payments'') (JArr [])),
        (''balances'', js_or (get_opt data ''balances'') (JArr [])),
        (''metadata'', JObj
           [(''source'', js_or (get_opt data ''source'') (JStr ''manual_input'')),
            (''timestamp'', JStr now),
            (''recordCount'', rc)])])"
proof -
  have n: "data \<noteq> JNull" "data \<noteq> JUndefined"
    using assms assemble_nullish[of data now] by auto
  show ?thesis using assms n unfolding assemble_unfold[OF n]
    by (cases "getTotalRecordCount data") auto
qed


lemma digit_chars: "list_all (\<lambda>n. is_digit (char_of (48 + n))) [0..<10]"
  by code_simp

lemma digit_char: "(n::nat) < 10 \<Longrightarrow> is_digit (char_of (48 + n))"
  using digit_chars by (simp add: list_all_iff)

lemma show_nat_digits: "list_all is_digit (show_nat n)"
proof (induction n rule: show_nat.induct)
  case (1 n)
  show ?case
  proof (cases "n < 10")
    case True
    then show ?thesis by (subst show_nat.simps) (simp add: digit_char)
  next
    case False
    then show ?thesis using 1 by (subst show_nat.simps) (simp add: digit_char)
  qed
qed

lemma own_property_index_keys:
  assumes "\<not> list_all is_digit k"
  shows "own_property (zip (map show_nat ns) vs) k = JUndefined"
proof -
  have "k \<notin> set (map show_nat ns)" using assms show_nat_digits by auto
  then have "map_of (zip (map show_nat ns) vs) k = None"
    by (auto simp: map_of_eq_None_iff dest: set_zip_leftD)
  then show ?thesis by (simp add: own_property_def)
qed

lemma get_primitive:
  assumes "\<not> list_all is_digit k" "k \<noteq> ''length''"
  shows "get (JStr s) k = Returns JUndefined" "get (JArr xs) k = Returns JUndefined"
    "get (JNum x) k = Returns JUndefined" "get (JBool b) k = Returns JUndefined"
  using assms by (simp_all add: own_property_index_keys)

lemma get_opt_scalar:
  assumes "(\<exists>x. d = JNum x) \<or> (\<exists>b. d = JBool b) \<or> (\<exists>s. d = JStr s)"
    "\<not> list_all is_digit k" "k \<noteq> ''length''"
  shows "get_opt d k = JUndefined"
  using assms by (auto simp: get_opt_def own_property_index_keys)

lemma get_opt_undefined: "get_opt JUndefined k = JUndefined"
  by (simp add: get_opt_def)


lemma cleanRecord_object_like:
  "is_object_like r \<Longrightarrow> cleanRecord r = Returns (JObj (foldl clean_field [] (spread_object r)))"
  by (cases r) (auto simp: cleanRecord_def spread_object_def)

lemma clean_all_object_like:
  "list_all is_object_like rs \<Longrightarrow>
     clean_all rs = Returns (map (\<lambda>r. JObj (foldl clean_field [] (spread_object r))) rs)"
  by (induction rs) (auto simp: cleanRecord_object_like)

lemma clean_category_array:
  assumes "own_property cleaned k = JArr rs" "k \<noteq> ''__proto__''"
  shows "clean_category cleaned k =
     Returns (AList.update k
       (JArr (map (\<lambda>r. JObj (foldl clean_field [] (spread_object r))) (filter is_object_like rs))) cleaned)"
proof -
  have "list_all is_object_like (filter is_object_like rs)" by (simp add: list_all_iff)
  from clean_all_object_like[OF this] show ?thesis
    using assms by (simp add: clean_category_def set_property_def)
qed

lemma cleanFinancialData_cleans_every_record:
  "cleanFinancialData (JObj
      [(''invoices'', JArr is), (''expenses'', JArr es), (''payments'', JArr ps),
       (''balances'', JArr bs), (''metadata'', m)])
   = Returns (JObj
      [(''invoices'', JArr (map (\<lambda>r. JObj (foldl clean_field [] (spread_object r))) (filter is_object_like is))),
       (''expenses'', JArr (map (\<lambda>r. JObj (foldl clean_field [] (spread_object r))) (filter is_object_like es))),
       (''payments'', JArr (map (\<lambda>r. JObj (foldl clean_field [] (spread_object r))) (filter is_object_like ps))),
       (''balances'', JArr (map (\<lambda>r. JObj (foldl clean_field [] (spread_object r))) (filter is_object_like bs))),
       (''metadata'', m)])"
  by (simp add: cleanFinancialData_def spread_object_def clean_category_array own_property_def)

text \<open>
  C1, as stated: the Cleaner is applied to every record of every category sequence that
  \<open>normalize\<close> returns. It is not: \<^verbatim>\<open>normalizeFinancialData\<close> never calls the cleaner. The
  record below comes back with its \<^verbatim>\<open>null\<close> field and its untrimmed numeric string, and is
  not what \<^verbatim>\<open>cleanRecord\<close> makes of it.
\<close>

theorem normalize_does_not_clean:
  "normalizeFinancialData Map.empty ''2024-02-01T00:00:00.000Z''
     (JArr [JObj [(''type'', JStr ''invoice''), (''amount'', JStr '' 500 ''), (''note'', JNull)]])
   = Returns (JObj
       [(''invoices'', JArr [JObj [(''type'', JStr ''invoice''), (''amount'', JStr '' 500 ''), (''note'', JNull)]]),
        (''expenses'', JArr []),
        (''payments'', JArr []),
        (''balances'', JArr []),
        (''metadata'', JObj
           [(''source'', JStr ''manual_input''),
            (''timestamp'', JStr ''2024-02-01T00:00:00.000Z''),
            (''recordCount'', JNum 1)])])
   \<and> cleanRecord (JObj [(''type'', JStr ''invoice''), (''amount'', JStr '' 500 ''), (''note'', JNull)])
       = Returns (JObj [(''type'', JStr ''invoice''), (''amount'', JNum 500)])"
  by code_simp

text \<open>
  C1, amended: for every input accepted by \<open>normalize\<close>, the records of the returned category
  sequences are the records of the input, unchanged (no field is dropped, trimmed or
  coerced). For a flat sequence, each returned category holds, in input order, the input
  records that \<open>classify\<close> puts there; for any other parsed value, each returned category is
  the value the input has under that key, or the empty sequence when that value is absent
  or falsy. Cleaning is the separate operation \<^verbatim>\<open>cleanFinancialData\<close>
  (\<open>cleanFinancialData_cleans_every_record\<close>).
\<close>

theorem normalize_keeps_records_uncleaned:
  assumes "normalizeFinancialData JSON_parse now input = Returns n"
    and "parse_input JSON_parse input = Returns parsed"
    and "k \<in> {''invoices'', ''expenses'', ''payments'', ''balances''}"
  shows "get_opt n k =
     (case parsed of
        JArr flatData \<Rightarrow> JArr (filter (\<lambda>r. detectRecordType r = Returns k) flatData)
      | _ \<Rightarrow> js_or (get_opt parsed k) (JArr []))"
proof -
  from assms(1,2) obtain data where c: "categorize_if_array parsed = Returns data"
    and a: "assemble now data = Returns n"
    unfolding normalize_Returns by auto
  from assemble_Returns[OF a] obtain rc where n_eq: "n = JObj
       [(''invoices'', js_or (get_opt data ''invoices'') (JArr [])),
        (''expenses'', js_or (get_opt data ''expenses'') (JArr [])),
        (''payments'', js_or (get_opt data ''payments'') (JArr [])),
        (''balances'', js_or (get_opt data ''balances'') (JArr [])),
        (''metadata'', JObj
           [(''source'', js_or (get_opt data ''source'') (JStr ''manual_input'')),
            (''timestamp'', JStr now),
            (''recordCount'', rc)])]"
    by blast
  have n: "get_opt n k = js_or (get_opt data k) (JArr [])"
    using assms(3) by (auto simp: n_eq get_opt_def own_property_def)
  show ?thesis
  proof (cases parsed)
    case (JArr flatData)
    from c have d: "data = JObj [(''invoices'', JArr (filter (\<lambda>r. detectRecordType r = Returns ''invoices'') flatData)),
                    (''expenses'', JArr (filter (\<lambda>r. detectRecordType r = Returns ''expenses'') flatData)),
                    (''payments'', JArr (filter (\<lambda>r. detectRecordType r = Returns ''payments'') flatData)),
                    (''balances'', JArr (filter (\<lambda>r. detectRecordType r = Returns ''balances'') flatData))]"
      by (simp add: JArr categorize_if_array_def categorizeFlatData_buckets split: if_splits)
    have "get_opt data k = JArr (filter (\<lambda>r. detectRecordType r = Returns k) flatData)"
      using assms(3) by (auto simp: d get_opt_def own_property_def)
    then show ?thesis by (simp add: n JArr js_or_def)
  qed (use c in \<open>auto simp: n categorize_if_array_def\<close>)
qed

theorem normalize_keeps_records_uncleaned_witness:
  "get_opt (JObj
       [(''invoices'', JArr [JObj [(''type'', JStr ''invoice''), (''amount'', JStr '' 500 ''), (''note'', JNull)]]),
        (''expenses'', JArr []),
        (''payments'', JArr []),
        (''balances'', JArr []),
        (''metadata'', JObj
           [(''source'', JStr ''manual_input''),
            (''timestamp'', JStr ''2024-02-01T00:00:00.000Z''),
            (''recordCount'', JNum 1)])]) ''invoices''
   = JArr (filter (\<lambda>r. detectRecordType r = Returns ''invoices'')
       [JObj [(''type'', JStr ''invoice''), (''amount'', JStr '' 500 ''), (''note'', JNull)]])"
proof -
  have e1: "normalizeFinancialData Map.empty ''2024-02-01T00:00:00.000Z''
     (JArr [JObj [(''type'', JStr ''invoice''), (''amount'', JStr '' 500 ''), (''note'', JNull)]])
   = Returns (JObj
       [(''invoices'', JArr [JObj [(''type'', JStr ''invoice''), (''amount'', JStr '' 500 ''), (''note'', JNull)]]),
        (''expenses'', JArr []),
        (''payments'', JArr []),
        (''balances'', JArr []),
        (''metadata'', JObj
           [(''source'', JStr ''manual_input''),
            (''timestamp'', JStr ''2024-02-01T00:00:00.000Z''),
            (''recordCount'', JNum 1)])])"
    by code_simp
  have e2: "parse_input Map.empty (JArr [JObj [(''type'', JStr ''invoice''), (''amount'', JStr '' 500 ''), (''note'', JNull)]])
    = Returns (JArr [JObj [(''type'', JStr ''invoice''), (''amount'', JStr '' 500 ''), (''note'', JNull)]])"
    by (simp add: parse_input_def)
  from normalize_keeps_records_uncleaned[OF e1 e2, of "''invoices''"] show ?thesis by simp
qed

text \<open>
  Two cases in which \<open>normalize\<close> succeeds and returns four sequences: the parsed input is
  an object whose every category is an array, absent or falsy; the parsed input is a flat
  sequence none of whose records makes the classifier throw.
\<close>

lemma count_of_sequence_or_falsy:
  assumes "\<not> truthy v \<or> (\<exists>xs. v = JArr xs)"
  shows "\<exists>n. js_or (get_opt v ''length'') (JNum 0) = JNum n"
  using assms by (cases v) (auto simp: js_or_def get_opt_def)

lemma normalize_object_returns_sequences:
  assumes "parse_input JSON_parse input = Returns (JObj ps)"
    and "list_all (\<lambda>k. \<not> truthy (own_property ps k) \<or> (\<exists>xs. own_property ps k = JArr xs))
           [''invoices'', ''expenses'', ''payments'', ''balances'']"
  shows "\<exists>n. normalizeFinancialData JSON_parse now input = Returns n
           \<and> list_all (\<lambda>k. \<exists>xs. get_opt n k = JArr xs)
                 [''invoices'', ''expenses'', ''payments'', ''balances'']"
proof -
  have nn: "JObj ps \<noteq> JNull" "JObj ps \<noteq> JUndefined" by simp_all
  have g: "get_opt (JObj ps) k = own_property ps k" for k by (simp add: get_opt_def)
  from assms(2) obtain a b c d where
    n: "count_of (JObj ps) ''invoices'' = JNum a" "count_of (JObj ps) ''expenses'' = JNum b"
       "count_of (JObj ps) ''payments'' = JNum c" "count_of (JObj ps) ''balances'' = JNum d"
    unfolding count_of_def g
    using count_of_sequence_or_falsy[of "own_property ps ''invoices''"]
      count_of_sequence_or_falsy[of "own_property ps ''expenses''"]
      count_of_sequence_or_falsy[of "own_property ps ''payments''"]
      count_of_sequence_or_falsy[of "own_property ps ''balances''"]
    by auto
  have rc: "getTotalRecordCount (JObj ps) = Returns (JNum (a + b + c + d))"
    by (simp add: getTotalRecordCount_unfold[OF nn] n)
  have arr: "\<exists>xs. js_or (own_property ps k) (JArr []) = JArr xs"
    if "\<not> truthy (own_property ps k) \<or> (\<exists>xs. own_property ps k = JArr xs)" for k
    using that by (auto simp: js_or_def)
  show ?thesis
    using assms(2)
    by (simp add: normalizeFinancialData_def normalize_try_def assms(1) categorize_if_array_def
        assemble_unfold[OF nn] rc g get_opt_def[of "JObj (_ # _)"] own_property_def[of "_ # _"] arr)
qed

lemma normalize_flat_returns_sequences:
  assumes "parse_input JSON_parse input = Returns (JArr flatData)"
    and "\<not> list_ex (\<lambda>r. detectRecordType r = Throws TypeError) flatData"
  shows "\<exists>n. normalizeFinancialData JSON_parse now input = Returns n
           \<and> list_all (\<lambda>k. \<exists>xs. get_opt n k = JArr xs)
                 [''invoices'', ''expenses'', ''payments'', ''balances'']"
proof -
  let ?d = "JObj [(''invoices'', JArr (filter (\<lambda>r. detectRecordType r = Returns ''invoices'') flatData)),
                    (''expenses'', JArr (filter (\<lambda>r. detectRecordType r = Returns ''expenses'') flatData)),
                    (''payments'', JArr (filter (\<lambda>r. detectRecordType r = Returns ''payments'') flatData)),
                    (''balances'', JArr (filter (\<lambda>r. detectRecordType r = Returns ''balances'') flatData))]"
  have c: "categorize_if_array (JArr flatData) = Returns ?d"
    using assms(2) by (simp add: categorize_if_array_def categorizeFlatData_buckets)
  have "parse_input (\<lambda>s. Some ?d) (JStr []) = Returns ?d" by (simp add: parse_input_def)
  from normalize_object_returns_sequences[OF this, of now]
  obtain n where n: "normalizeFinancialData (\<lambda>s. Some ?d) now (JStr []) = Returns n"
    and l: "list_all (\<lambda>k. \<exists>xs. get_opt n k = JArr xs) [''invoices'', ''expenses'', ''payments'', ''balances'']"
    by (auto simp: own_property_def)
  from n have "assemble now ?d = Returns n"
    by (simp add: normalizeFinancialData_def normalize_try_def parse_input_def categorize_if_array_def
        split: outcome.splits)
  then have "normalizeFinancialData JSON_parse now input = Returns n"
    by (simp add: normalizeFinancialData_def normalize_try_def assms(1) c)
  with l show ?thesis by blast
qed

text \<open>
  C2, as stated: for every input on which \<open>normalize\<close> succeeds, \<open>recordCount\<close> is the sum of
  the four sequence lengths, an integer that is not negative. \<open>normalize\<close> succeeds on the
  object \<open>{invoices: {length: -1}}\<close>: it returns \<open>invoices\<close> as given, which is no sequence,
  and \<open>recordCount\<close> is \<open>-1\<close>.
\<close>

theorem recordCount_negative:
  "normalizeFinancialData Map.empty ''2024-02-01T00:00:00.000Z''
     (JObj [(''invoices'', JObj [(''length'', JNum (- 1))])])
   = Returns (JObj
       [(''invoices'', JObj [(''length'', JNum (- 1))]),
        (''expenses'', JArr []),
        (''payments'', JArr []),
        (''balances'', JArr []),
        (''metadata'', JObj
           [(''source'', JStr ''manual_input''),
            (''timestamp'', JStr ''2024-02-01T00:00:00.000Z''),
            (''recordCount'', JNum (- 1))])])"
  by code_simp

text \<open>
  C2, amended: for every input on which \<open>normalize\<close> succeeds and returns four sequences
  under \<open>invoices\<close>, \<open>expenses\<close>, \<open>payments\<close> and \<open>balances\<close>, \<open>metadata.recordCount\<close> is
  the sum of the lengths of these four sequences, a natural number, computed once when the
  structure is assembled.
\<close>

theorem recordCount_is_sum_of_lengths:
  assumes "normalizeFinancialData JSON_parse now input = Returns n"
    and "get_opt n ''invoices'' = JArr is" and "get_opt n ''expenses'' = JArr es"
    and "get_opt n ''payments'' = JArr ps" and "get_opt n ''balances'' = JArr bs"
  shows "get_opt (get_opt n ''metadata'') ''recordCount''
           = JNum (of_nat (length is + length es + length ps + length bs))"
proof -
  from assms(1) obtain data where a: "assemble now data = Returns n"
    unfolding normalize_Returns by blast
  from assemble_Returns[OF a] obtain rc where nn: "data \<noteq> JNull" "data \<noteq> JUndefined"
    and rc: "getTotalRecordCount data = Returns rc"
    and n: "n = JObj
       [(''invoices'', js_or (get_opt data ''invoices'') (JArr [])),
        (''expenses'', js_or (get_opt data ''expenses'') (JArr [])),
        (''payments'', js_or (get_opt data ''payments'') (JArr [])),
        (''balances'', js_or (get_opt data ''balances'') (JArr [])),
        (''metadata'', JObj
           [(''source'', js_or (get_opt data ''source'') (JStr ''manual_input'')),
            (''timestamp'', JStr now),
            (''recordCount'', rc)])]"
    by blast
  have i: "count_of data ''invoices'' = JNum (of_nat (length is))"
    unfolding count_of_def using assms(2)
    by (intro count_of_array_output) (simp add: n get_opt_def own_property_def)
  have e: "count_of data ''expenses'' = JNum (of_nat (length es))"
    unfolding count_of_def using assms(3)
    by (intro count_of_array_output) (simp add: n get_opt_def own_property_def)
  have p: "count_of data ''payments'' = JNum (of_nat (length ps))"
    unfolding count_of_def using assms(4)
    by (intro count_of_array_output) (simp add: n get_opt_def own_property_def)
  have b: "count_of data ''balances'' = JNum (of_nat (length bs))"
    unfolding count_of_def using assms(5)
    by (intro count_of_array_output) (simp add: n get_opt_def own_property_def)
  from getTotalRecordCount_Returns[OF nn rc] i e p b
  have "rc = JNum (of_nat (length is) + of_nat (length es) + of_nat (length ps) + of_nat (length bs))"
    by auto
  then show ?thesis by (simp add: n get_opt_def own_property_def)
qed


theorem recordCount_is_sum_of_lengths_witness:
  "get_opt (get_opt (JObj
       [(''invoices'', JArr [JObj [(''amount'', JNum 1)], JObj [(''amount'', JNum 2)]]),
        (''expenses'', JArr [JObj [(''amount'', JNum 3)]]),
        (''payments'', JArr []),
        (''balances'', JArr []),
        (''metadata'', JObj
           [(''source'', JStr ''manual_input''),
            (''timestamp'', JStr ''2024-02-01T00:00:00.000Z''),
            (''recordCount'', JNum 3)])]) ''metadata'') ''recordCount''
   = JNum (of_nat (length [JObj [(''amount'', JNum 1)], JObj [(''amount'', JNum 2)]]
                   + length [JObj [(''amount'', JNum 3)]] + length ([] :: jsval list)
                   + length ([] :: jsval list)))"
proof -
  have e: "normalizeFinancialData Map.empty ''2024-02-01T00:00:00.000Z''
     (JObj [(''invoices'', JArr [JObj [(''amount'', JNum 1)], JObj [(''amount'', JNum 2)]]),
            (''expenses'', JArr [JObj [(''amount'', JNum 3)]])])
   = Returns (JObj
       [(''invoices'', JArr [JObj [(''amount'', JNum 1)], JObj [(''amount'', JNum 2)]]),
        (''expenses'', JArr [JObj [(''amount'', JNum 3)]]),
        (''payments'', JArr []),
        (''balances'', JArr []),
        (''metadata'', JObj
           [(''source'', JStr ''manual_input''),
            (''timestamp'', JStr ''2024-02-01T00:00:00.000Z''),
            (''recordCount'', JNum 3)])])"
    by code_simp
  show ?thesis
    by (rule recordCount_is_sum_of_lengths[OF e]) (simp_all add: get_opt_def own_property_def)
qed

text \<open>
  C3, as stated: malformed JSON text fails with a \<open>ParseError\<close> surfaced verbatim, and a
  top-level value that is no object, such as a parsed scalar, fails with a
  \<open>NormalizationError\<close>. On the malformed text below the error thrown is the wrapping
  error, with the message \<^verbatim>\<open>Data normalization failed: Invalid JSON format\<close>; and on the
  text \<^verbatim>\<open>5\<close>, which parses to a number, \<open>normalize\<close> succeeds with an empty structure.
\<close>

theorem parse_error_wrapped_and_scalar_accepted:
  "normalizeFinancialData [''5'' \<mapsto> JNum 5] ''2024-02-01T00:00:00.000Z'' (JStr ''{invoices:'')
     = Throws (NormalizationFailed (Error ''Invalid JSON format''))
   \<and> error_message ''engine text'' (NormalizationFailed (Error ''Invalid JSON format''))
     = ''Data normalization failed: Invalid JSON format''
   \<and> normalizeFinancialData [''5'' \<mapsto> JNum 5] ''2024-02-01T00:00:00.000Z'' (JStr ''5'')
     = Returns (JObj
       [(''invoices'', JArr []),
        (''expenses'', JArr []),
        (''payments'', JArr []),
        (''balances'', JArr []),
        (''metadata'', JObj
           [(''source'', JStr ''manual_input''),
            (''timestamp'', JStr ''2024-02-01T00:00:00.000Z''),
            (''recordCount'', JNum 0)])])"
  by code_simp

text \<open>
  C3, amended: \<open>normalize\<close> throws one kind of error only, built by its \<^verbatim>\<open>catch\<close> block
  with the message \<^verbatim>\<open>Data normalization failed: \<close> followed by the message of the cause.
  The cause is \<^verbatim>\<open>Invalid JSON format\<close> exactly when the input is text that is malformed
  JSON, and a \<^verbatim>\<open>TypeError\<close> otherwise; so a parse failure is told from the other failures
  by its message only. A top-level \<^verbatim>\<open>null\<close> fails with a \<^verbatim>\<open>TypeError\<close> as cause. A
  top-level number, boolean or string (a parsed scalar) does not fail: \<open>normalize\<close> returns
  the structure with four empty sequences and \<open>recordCount\<close> 0.
\<close>

theorem normalize_failures:
  "(normalizeFinancialData JSON_parse now input = Throws (NormalizationFailed (Error ''Invalid JSON format''))
      \<longleftrightarrow> (\<exists>s. input = JStr s \<and> JSON_parse s = None))
   \<and> (\<forall>e. normalizeFinancialData JSON_parse now input = Throws e \<longrightarrow>
         e = NormalizationFailed (Error ''Invalid JSON format'') \<or> e = NormalizationFailed TypeError)
   \<and> error_message engine_text (NormalizationFailed (Error ''Invalid JSON format''))
        = ''Data normalization failed: Invalid JSON format''
   \<and> (parse_input JSON_parse input = Returns JNull \<longrightarrow>
         normalizeFinancialData JSON_parse now input = Throws (NormalizationFailed TypeError))
   \<and> ((\<exists>x. parse_input JSON_parse input = Returns (JNum x))
        \<or> (\<exists>b. parse_input JSON_parse input = Returns (JBool b))
        \<or> (\<exists>s. parse_input JSON_parse input = Returns (JStr s)) \<longrightarrow>
         normalizeFinancialData JSON_parse now input = Returns (JObj
           [(''invoices'', JArr []), (''expenses'', JArr []), (''payments'', JArr []),
            (''balances'', JArr []),
            (''metadata'', JObj
               [(''source'', JStr ''manual_input''), (''timestamp'', JStr now),
                (''recordCount'', JNum 0)])]))"
proof -
  have causes: "e = NormalizationFailed (Error ''Invalid JSON format'') \<or> e = NormalizationFailed TypeError"
    if "normalizeFinancialData JSON_parse now input = Throws e" for e
    using that unfolding normalize_Throws
    by (auto simp: parse_input_Throws dest: categorize_if_array_Throws assemble_Throws)
  have parse: "normalizeFinancialData JSON_parse now input = Throws (NormalizationFailed (Error ''Invalid JSON format''))
      \<longleftrightarrow> (\<exists>s. input = JStr s \<and> JSON_parse s = None)"
    unfolding normalize_Throws
    by (auto simp: parse_input_Throws dest: categorize_if_array_Throws assemble_Throws)
  have null: "normalizeFinancialData JSON_parse now input = Throws (NormalizationFailed TypeError)"
    if "parse_input JSON_parse input = Returns JNull"
    using that by (simp add: normalizeFinancialData_def normalize_try_def categorize_if_array_def assemble_def)
  have scalar: "normalizeFinancialData JSON_parse now input = Returns (JObj
           [(''invoices'', JArr []), (''expenses'', JArr []), (''payments'', JArr []),
            (''balances'', JArr []),
            (''metadata'', JObj
               [(''source'', JStr ''manual_input''), (''timestamp'', JStr now),
                (''recordCount'', JNum 0)])])"
    if "(\<exists>x. parse_input JSON_parse input = Returns (JNum x))
        \<or> (\<exists>b. parse_input JSON_parse input = Returns (JBool b))
        \<or> (\<exists>s. parse_input JSON_parse input = Returns (JStr s))"
  proof -
    from that obtain d where d: "parse_input JSON_parse input = Returns d"
      and sc: "(\<exists>x. d = JNum x) \<or> (\<exists>b. d = JBool b) \<or> (\<exists>s. d = JStr s)"
      by auto
    have nn: "d \<noteq> JNull" "d \<noteq> JUndefined" using sc by auto
    have c: "categorize_if_array d = Returns d" using sc by (auto simp: categorize_if_array_def)
    have g: "get_opt d ''invoices'' = JUndefined" "get_opt d ''expenses'' = JUndefined"
      "get_opt d ''payments'' = JUndefined" "get_opt d ''balances'' = JUndefined"
      "get_opt d ''source'' = JUndefined"
      by (rule get_opt_scalar[OF sc]; simp add: is_digit_def)+
    have rc: "getTotalRecordCount d = Returns (JNum 0)"
      by (simp add: getTotalRecordCount_unfold[OF nn] count_of_def g get_opt_undefined js_or_def)
    show ?thesis
      by (simp add: normalizeFinancialData_def normalize_try_def d c assemble_unfold[OF nn] rc g js_or_def)
  qed
  show ?thesis using causes parse null scalar by (simp add: )
qed

theorem normalize_failures_witness:
  "normalizeFinancialData [''true'' \<mapsto> JBool True] ''2024-02-01T00:00:00.000Z'' (JStr ''[1,'')
     = Throws (NormalizationFailed (Error ''Invalid JSON format''))
   \<and> normalizeFinancialData [''true'' \<mapsto> JBool True] ''2024-02-01T00:00:00.000Z'' (JStr ''true'')
     = Returns (JObj
       [(''invoices'', JArr []),
        (''expenses'', JArr []),
        (''payments'', JArr []),
        (''balances'', JArr []),
        (''metadata'', JObj
           [(''source'', JStr ''manual_input''),
            (''timestamp'', JStr ''2024-02-01T00:00:00.000Z''),
            (''recordCount'', JNum 0)])])"
proof -
  have malformed: "\<exists>s. JStr ''[1,'' = JStr s \<and> [''true'' \<mapsto> JBool True] s = None"
    by simp
  have scalar: "(\<exists>x. parse_input [''true'' \<mapsto> JBool True] (JStr ''true'') = Returns (JNum x))
        \<or> (\<exists>b. parse_input [''true'' \<mapsto> JBool True] (JStr ''true'') = Returns (JBool b))
        \<or> (\<exists>s. parse_input [''true'' \<mapsto> JBool True] (JStr ''true'') = Returns (JStr s))"
    by (auto simp: parse_input_def)
  from normalize_failures[of "[''true'' \<mapsto> JBool True]" "''2024-02-01T00:00:00.000Z''" "JStr ''[1,''"] malformed
  have a: "normalizeFinancialData [''true'' \<mapsto> JBool True] ''2024-02-01T00:00:00.000Z'' (JStr ''[1,'')
     = Throws (NormalizationFailed (Error ''Invalid JSON format''))"
    by blast
  from normalize_failures[of "[''true'' \<mapsto> JBool True]" "''2024-02-01T00:00:00.000Z''" "JStr ''true''"] scalar
  have b: "normalizeFinancialData [''true'' \<mapsto> JBool True] ''2024-02-01T00:00:00.000Z'' (JStr ''true'')
     = Returns (JObj
       [(''invoices'', JArr []),
        (''expenses'', JArr []),
        (''payments'', JArr []),
        (''balances'', JArr []),
        (''metadata'', JObj
           [(''source'', JStr ''manual_input''),
            (''timestamp'', JStr ''2024-02-01T00:00:00.000Z''),
            (''recordCount'', JNum 0)])])"
    by blast
  from a b show ?thesis by simp
qed

section \<open>Properties of the validator\<close>

lemma validate_empty_iff_valid:
  "(validate fmt s ip sp v = []) = valid fmt s v"
  "(validate_kws fmt kws ip sp v = []) = valid_kws fmt kws v"
  "(validate_kw fmt k ip sp v = []) = valid_kw fmt k v"
  "(validate_props fmt ps ip sp obj = []) = valid_props fmt ps obj"
  "(validate_items fmt s ip sp i xs = []) = valid_items fmt s xs"
proof (induction fmt s ip sp v and fmt kws ip sp v and fmt k ip sp v and fmt ps ip sp obj
       and fmt s ip sp i xs
       rule: validate_validate_kws_validate_kw_validate_props_validate_items.induct)
  case (6 fmt rs ip sp v)
  show ?case by (induction rs) (auto split: jsval.splits)
qed (auto split: jsval.splits)

lemma valid_items_list_all: "valid_items fmt s xs = list_all (valid fmt s) xs"
  by (induction xs) auto

lemma valid_array_of:
  "valid fmt (Schema [Type [T_array], Items s]) v = (\<exists>xs. v = JArr xs \<and> list_all (valid fmt s) xs)"
  by (cases v) (auto simp: valid_items_list_all)

lemma valid_number: "valid fmt (Schema [Type [T_number]]) v \<Longrightarrow> \<exists>n. v = JNum n"
  and valid_amount: "valid fmt (Schema [Type [T_number], Minimum 0]) v \<Longrightarrow> \<exists>n. v = JNum n \<and> 0 \<le> n"
  and valid_date: "valid fmt (Schema [Type [T_string], Format ''date'']) v \<Longrightarrow> \<exists>s. v = JStr s \<and> fmt ''date'' s"
  by (cases v; simp)+

lemma invoice_dated_amount: "valid fmt invoice_schema x \<Longrightarrow> dated_amount x"
  unfolding invoice_schema_def dated_amount_def
  by (cases x; cases "own_property (case x of JObj ob \<Rightarrow> ob | _ \<Rightarrow> []) ''amount''";
      cases "own_property (case x of JObj ob \<Rightarrow> ob | _ \<Rightarrow> []) ''date''") auto

lemma expense_dated_amount: "valid fmt expense_schema x \<Longrightarrow> dated_amount x"
  unfolding expense_schema_def dated_amount_def
  by (cases x; cases "own_property (case x of JObj ob \<Rightarrow> ob | _ \<Rightarrow> []) ''amount''";
      cases "own_property (case x of JObj ob \<Rightarrow> ob | _ \<Rightarrow> []) ''date''") auto

lemma payment_dated_amount: "valid fmt payment_schema x \<Longrightarrow> dated_amount x"
  unfolding payment_schema_def dated_amount_def
  by (cases x; cases "own_property (case x of JObj ob \<Rightarrow> ob | _ \<Rightarrow> []) ''amount''";
      cases "own_property (case x of JObj ob \<Rightarrow> ob | _ \<Rightarrow> []) ''date''") auto

lemma valid_financial_object:
  "valid fmt financialDataSchema d =
     (\<exists>ps. d = JObj ps
        \<and> (\<exists>is. own_property ps ''invoices'' = JArr is \<and> list_all (valid fmt invoice_schema) is)
        \<and> (\<exists>es. own_property ps ''expenses'' = JArr es \<and> list_all (valid fmt expense_schema) es)
        \<and> (own_property ps ''payments'' = JUndefined
            \<or> (\<exists>ys. own_property ps ''payments'' = JArr ys \<and> list_all (valid fmt payment_schema) ys))
        \<and> (own_property ps ''balances'' = JUndefined
            \<or> (\<exists>bs. own_property ps ''balances'' = JArr bs \<and> list_all (valid fmt balance_schema) bs))
        \<and> (own_property ps ''metadata'' = JUndefined
            \<or> valid fmt metadata_schema (own_property ps ''metadata'')))"
proof (cases d)
  case (JObj ps)
  show ?thesis
    unfolding JObj financialDataSchema_def
    by (auto simp: valid_items_list_all split: jsval.splits)
qed (simp_all add: financialDataSchema_def)

lemma filter_outcome_Returns:
  "list_all (\<lambda>x. \<exists>b. p x = Returns b) xs \<Longrightarrow>
     filter_outcome p xs = Returns (filter (\<lambda>x. p x = Returns True) xs)"
  by (induction xs) auto

lemma without_date_dated: "dated_amount x \<Longrightarrow> \<exists>b. without_date x = Returns b"
  by (auto simp: dated_amount_def without_date_def)

lemma suspicious_amount_dated: "dated_amount x \<Longrightarrow> \<exists>b. suspicious_amount x = Returns b"
  by (auto simp: dated_amount_def suspicious_amount_def)

lemma checkDataQuality_valid:
  assumes "valid fmt financialDataSchema d"
  shows "\<exists>ws. checkDataQuality d = Returns ws \<and>
           (get_opt d ''invoices'' = JArr [] \<longrightarrow>
              ''No invoice data provided - cash flow projections may be inaccurate'' \<in> set ws)"
proof -
  from assms obtain ps "is" es where d: "d = JObj ps"
    and i: "own_property ps ''invoices'' = JArr is" "list_all (valid fmt invoice_schema) is"
    and e: "own_property ps ''expenses'' = JArr es" "list_all (valid fmt expense_schema) es"
    and p: "own_property ps ''payments'' = JUndefined
            \<or> (\<exists>ys. own_property ps ''payments'' = JArr ys \<and> list_all (valid fmt payment_schema) ys)"
    unfolding valid_financial_object by blast
  obtain ys where ys: "spread (js_or (own_property ps ''payments'') (JArr [])) = Returns ys"
    and yv: "list_all (valid fmt payment_schema) ys"
    using p by (auto simp: js_or_def)
  have all: "list_all dated_amount (is @ es @ ys)"
    using i(2) e(2) yv
    by (auto simp: list_all_iff dest: invoice_dated_amount expense_dated_amount payment_dated_amount)
  have f1: "filter_outcome without_date (is @ es @ ys)
              = Returns (filter (\<lambda>x. without_date x = Returns True) (is @ es @ ys))"
    by (rule filter_outcome_Returns) (use all in \<open>auto simp: list_all_iff dest: without_date_dated\<close>)
  have f2: "filter_outcome suspicious_amount (is @ es @ ys)
              = Returns (filter (\<lambda>x. suspicious_amount x = Returns True) (is @ es @ ys))"
    by (rule filter_outcome_Returns) (use all in \<open>auto simp: list_all_iff dest: suspicious_amount_dated\<close>)
  show ?thesis
    by (simp add: checkDataQuality_def d i(1) e(1) js_or_def[of "JArr is"] js_or_def[of "JArr es"]
        ys f1 f2 get_opt_def del: filter_append)
qed

lemma validateData_cases:
  "validateData fmt d =
     (if valid fmt financialDataSchema d
      then bind (checkDataQuality d) (\<lambda>ws. Returns \<lparr>isValid = True, errors = [], warnings = ws\<rparr>)
      else Returns \<lparr>isValid = False,
                    errors = map formatValidationError (validateFinancialData fmt d),
                    warnings = []\<rparr>)"
  using validate_empty_iff_valid(1)[of fmt financialDataSchema "[]" "''#''" d]
  by (simp add: validateData_def Let_def validateFinancialData_def)

lemma validateFinancialData_empty_iff:
  "(validateFinancialData fmt d = []) = valid fmt financialDataSchema d"
  by (simp add: validateFinancialData_def validate_empty_iff_valid)

lemma own_property_delete:
  "own_property (AList.delete k ps) k' = (if k' = k then JUndefined else own_property ps k')"
  by (simp add: own_property_def delete_conv')

lemma own_property_update:
  "own_property (AList.update k v ps) k' = (if k' = k then v else own_property ps k')"
  by (simp add: own_property_def update_conv')


text \<open>
  C8. The claim: on \<open>{invoices: [{date: "2024-01-01"}], expenses: []}\<close> the validator
  returns \<open>isValid\<close> false with exactly one FieldError for the missing \<^verbatim>\<open>amount\<close> of the
  invoice, carrying the failing path, a message, the offending value and the violated
  constraint. The code returns \<open>isValid\<close> false with exactly one FieldError, with the path
  \<^verbatim>\<open>/invoices/0\<close>, the message and the constraint naming \<^verbatim>\<open>amount\<close>; the value it carries
  is \<^verbatim>\<open>undefined\<close>, because \<^verbatim>\<open>formatValidationError\<close> reads \<^verbatim>\<open>error.data\<close>, which this
  Ajv instance does not set.
\<close>

theorem missing_amount_error_has_no_value:
  "validateData date_format
     (JObj [(''invoices'', JArr [JObj [(''date'', JStr ''2024-01-01'')]]), (''expenses'', JArr [])])
   = Returns \<lparr>isValid = False,
       errors = [\<lparr>field = ''/invoices/0'',
                  fe_message = ''must have required property '' @ [CHR 0x27] @ ''amount'' @ [CHR 0x27],
                  fe_value = JUndefined,
                  constraint = P_missingProperty ''amount''\<rparr>],
       warnings = []\<rparr>"
  by code_simp

text \<open>
  C9. Quality warnings are soft: they are computed only when the data is structurally
  valid and never affect \<open>isValid\<close>. For every input, \<open>validate\<close> returns, and \<open>isValid\<close>
  says whether the schema validator found no error; for every structurally valid input
  with an empty \<open>invoices\<close> sequence, \<open>isValid\<close> is true and the warnings hold the one on
  cash flow projections; for every structurally invalid input the warnings are empty.
\<close>

theorem quality_warnings_only_when_valid:
  "(\<exists>r. validateData fmt d = Returns r \<and> isValid r = (validateFinancialData fmt d = []))
   \<and> (validateFinancialData fmt d = [] \<and> get_opt d ''invoices'' = JArr [] \<longrightarrow>
        (\<exists>r. validateData fmt d = Returns r \<and> isValid r
           \<and> ''No invoice data provided - cash flow projections may be inaccurate'' \<in> set (warnings r)))
   \<and> (validateFinancialData fmt d \<noteq> [] \<longrightarrow>
        (\<exists>r. validateData fmt d = Returns r \<and> \<not> isValid r \<and> warnings r = []))"
proof (cases "valid fmt financialDataSchema d")
  case True
  from checkDataQuality_valid[OF True] obtain ws where
    ws: "checkDataQuality d = Returns ws"
    "get_opt d ''invoices'' = JArr [] \<longrightarrow>
       ''No invoice data provided - cash flow projections may be inaccurate'' \<in> set ws"
    by blast
  show ?thesis using True ws
    by (simp add: validateData_cases validateFinancialData_empty_iff)
next
  case False
  then show ?thesis by (simp add: validateData_cases validateFinancialData_empty_iff)
qed


theorem quality_warnings_only_when_valid_witness:
  "\<exists>r. validateData date_format
          (JObj [(''invoices'', JArr []),
            (''expenses'', JArr [JObj [(''amount'', JNum 50), (''date'', JStr ''2024-02-02'')]])]) = Returns r
       \<and> isValid r
       \<and> ''No invoice data provided - cash flow projections may be inaccurate'' \<in> set (warnings r)"
proof -
  have v: "validateFinancialData date_format
          (JObj [(''invoices'', JArr []),
            (''expenses'', JArr [JObj [(''amount'', JNum 50), (''date'', JStr ''2024-02-02'')]])]) = []"
    by code_simp
  have e: "get_opt (JObj [(''invoices'', JArr []),
            (''expenses'', JArr [JObj [(''amount'', JNum 50), (''date'', JStr ''2024-02-02'')]])]) ''invoices'' = JArr []"
    by (simp add: get_opt_def own_property_def)
  from quality_warnings_only_when_valid[of date_format "JObj [(''invoices'', JArr []),
            (''expenses'', JArr [JObj [(''amount'', JNum 50), (''date'', JStr ''2024-02-02'')]])]"]
  have "validateFinancialData date_format
          (JObj [(''invoices'', JArr []),
            (''expenses'', JArr [JObj [(''amount'', JNum 50), (''date'', JStr ''2024-02-02'')]])]) = []
      \<and> get_opt (JObj [(''invoices'', JArr []),
            (''expenses'', JArr [JObj [(''amount'', JNum 50), (''date'', JStr ''2024-02-02'')]])]) ''invoices'' = JArr []
      \<longrightarrow> (\<exists>r. validateData date_format
          (JObj [(''invoices'', JArr []),
            (''expenses'', JArr [JObj [(''amount'', JNum 50), (''date'', JStr ''2024-02-02'')]])]) = Returns r
       \<and> isValid r
       \<and> ''No invoice data provided - cash flow projections may be inaccurate'' \<in> set (warnings r))"
    by blast
  with v e show ?thesis by blast
qed

text \<open>
  C10. For every input of \<open>validate\<close>, if the top-level key \<^verbatim>\<open>invoices\<close> or the top-level key
  \<^verbatim>\<open>expenses\<close> is absent then \<open>isValid\<close> is false. The absence of \<^verbatim>\<open>payments\<close>,
  \<^verbatim>\<open>balances\<close> or \<^verbatim>\<open>metadata\<close> does not by itself make the data invalid: removing one of
  them from valid data leaves it valid, and the object with two empty sequences under
  \<^verbatim>\<open>invoices\<close> and \<^verbatim>\<open>expenses\<close> alone is valid. Unknown additional top-level keys are
  permitted: adding one to valid data leaves it valid.
\<close>

theorem required_and_optional_top_level_keys:
  "(get_opt d ''invoices'' = JUndefined \<or> get_opt d ''expenses'' = JUndefined \<longrightarrow>
      (\<exists>r. validateData fmt d = Returns r \<and> \<not> isValid r))
   \<and> (k \<in> {''payments'', ''balances'', ''metadata''} \<and> validateFinancialData fmt (JObj ps) = [] \<longrightarrow>
        validateFinancialData fmt (JObj (AList.delete k ps)) = [])
   \<and> (k \<notin> {''invoices'', ''expenses'', ''payments'', ''balances'', ''metadata''}
        \<and> validateFinancialData fmt (JObj ps) = [] \<longrightarrow>
        validateFinancialData fmt (JObj (AList.update k v ps)) = [])
   \<and> (\<exists>r. validateData fmt (JObj [(''invoices'', JArr []), (''expenses'', JArr [])]) = Returns r
          \<and> isValid r)"
proof -
  have a: "\<exists>r. validateData fmt d = Returns r \<and> \<not> isValid r"
    if "get_opt d ''invoices'' = JUndefined \<or> get_opt d ''expenses'' = JUndefined"
  proof -
    have "\<not> valid fmt financialDataSchema d"
      using that unfolding valid_financial_object by (auto simp: get_opt_def)
    then show ?thesis by (simp add: validateData_cases)
  qed
  have b: "validateFinancialData fmt (JObj (AList.delete k ps)) = []"
    if "k \<in> {''payments'', ''balances'', ''metadata''}" "validateFinancialData fmt (JObj ps) = []"
    using that unfolding validateFinancialData_empty_iff valid_financial_object
    by (auto simp: own_property_delete)
  have c: "validateFinancialData fmt (JObj (AList.update k v ps)) = []"
    if "k \<notin> {''invoices'', ''expenses'', ''payments'', ''balances'', ''metadata''}"
      "validateFinancialData fmt (JObj ps) = []"
    using that unfolding validateFinancialData_empty_iff valid_financial_object
    by (auto simp: own_property_update)
  have v: "valid fmt financialDataSchema (JObj [(''invoices'', JArr []), (''expenses'', JArr [])])"
    unfolding valid_financial_object by (simp add: own_property_def)
  from checkDataQuality_valid[OF v] obtain ws where
     "checkDataQuality (JObj [(''invoices'', JArr []), (''expenses'', JArr [])]) = Returns ws"
    by blast
  then have e: "\<exists>r. validateData fmt (JObj [(''invoices'', JArr []), (''expenses'', JArr [])]) = Returns r
          \<and> isValid r"
    using v by (simp add: validateData_cases)
  show ?thesis
    apply (intro conjI impI)
       apply (erule a)
      apply (erule conjE, erule (1) b)
     apply (erule conjE, erule (1) c)
    apply (rule e)
    done
qed


theorem required_and_optional_top_level_keys_witness:
  "(\<exists>r. validateData date_format (JObj [(''invoices'', JArr [])]) = Returns r \<and> \<not> isValid r)
   \<and> validateFinancialData date_format
         (JObj (AList.delete ''metadata'' [(''invoices'', JArr []), (''expenses'', JArr []), (''metadata'', JObj [(''source'', JStr ''upload'')])])) = []
   \<and> validateFinancialData date_format
         (JObj (AList.update ''revenues'' (JArr []) [(''invoices'', JArr []), (''expenses'', JArr []), (''metadata'', JObj [(''source'', JStr ''upload'')])])) = []"
proof -
  have absent: "get_opt (JObj [(''invoices'', JArr [])]) ''expenses'' = JUndefined"
    by (simp add: get_opt_def own_property_def)
  have v: "validateFinancialData date_format (JObj [(''invoices'', JArr []), (''expenses'', JArr []), (''metadata'', JObj [(''source'', JStr ''upload'')])]) = []"
    by code_simp
  note t = required_and_optional_top_level_keys
  from t[of "JObj [(''invoices'', JArr [])]" date_format] absent
  have a: "\<exists>r. validateData date_format (JObj [(''invoices'', JArr [])]) = Returns r \<and> \<not> isValid r"
    by blast
  from t[of _ date_format "''metadata''" "[(''invoices'', JArr []), (''expenses'', JArr []), (''metadata'', JObj [(''source'', JStr ''upload'')])]"] v
  have b: "validateFinancialData date_format
         (JObj (AList.delete ''metadata'' [(''invoices'', JArr []), (''expenses'', JArr []), (''metadata'', JObj [(''source'', JStr ''upload'')])])) = []"
    by blast
  from t[of _ date_format "''revenues''" "[(''invoices'', JArr []), (''expenses'', JArr []), (''metadata'', JObj [(''source'', JStr ''upload'')])]" "JArr []"] v
  have c: "validateFinancialData date_format
         (JObj (AList.update ''revenues'' (JArr []) [(''invoices'', JArr []), (''expenses'', JArr []), (''metadata'', JObj [(''source'', JStr ''upload'')])])) = []"
    by simp
  from a b c show ?thesis by blast
qed

end
